theory Spec2Isabelle
  imports Complex_Main "HOL-Library.AList"
begin

section \<open>JavaScript values used by the donor analytics\<close>

subsection \<open>Numbers\<close>

text \<open>
  A JavaScript number is a finite value, one of the two infinities, or NaN.  A finite
  value is modelled by a real, and the sign of zero is not modelled (a zero divisor
  behaves as \<open>+0\<close>).  Division by zero does not raise in JavaScript: it yields an
  infinity or NaN, which then flow through every later operation; the operations
  below spell that out.

  The operations of this subsection return the exact result.  The donor analytics are
  modelled with them: what is proved of their sums, averages and rates is proved of
  the exact values.  The rounding of a result to a binary64 number is the subject of
  the next subsection, and the Pearson coefficient is modelled with the rounded
  operations.
\<close>

datatype jsnum = Fin real | PosInf | NegInf | NaN

fun js_neg :: "jsnum \<Rightarrow> jsnum" where
  "js_neg (Fin a) = Fin (- a)"
| "js_neg PosInf = NegInf"
| "js_neg NegInf = PosInf"
| "js_neg NaN = NaN"

fun js_add :: "jsnum \<Rightarrow> jsnum \<Rightarrow> jsnum" where
  "js_add NaN _ = NaN"
| "js_add _ NaN = NaN"
| "js_add (Fin a) (Fin b) = Fin (a + b)"
| "js_add (Fin a) PosInf = PosInf"
| "js_add (Fin a) NegInf = NegInf"
| "js_add PosInf NegInf = NaN"
| "js_add NegInf PosInf = NaN"
| "js_add PosInf _ = PosInf"
| "js_add NegInf _ = NegInf"

definition js_sub :: "jsnum \<Rightarrow> jsnum \<Rightarrow> jsnum" where
  "js_sub a b = js_add a (js_neg b)"

text \<open>The sign of an infinite product or quotient: \<open>True\<close> stands for positive.\<close>

definition js_inf :: "bool \<Rightarrow> jsnum" where
  "js_inf pos = (if pos then PosInf else NegInf)"

fun js_mul :: "jsnum \<Rightarrow> jsnum \<Rightarrow> jsnum" where
  "js_mul NaN _ = NaN"
| "js_mul _ NaN = NaN"
| "js_mul (Fin a) (Fin b) = Fin (a * b)"
| "js_mul (Fin a) PosInf = (if a = 0 then NaN else js_inf (0 < a))"
| "js_mul (Fin a) NegInf = (if a = 0 then NaN else js_inf (a < 0))"
| "js_mul PosInf (Fin b) = (if b = 0 then NaN else js_inf (0 < b))"
| "js_mul NegInf (Fin b) = (if b = 0 then NaN else js_inf (b < 0))"
| "js_mul PosInf PosInf = PosInf"
| "js_mul PosInf NegInf = NegInf"
| "js_mul NegInf PosInf = NegInf"
| "js_mul NegInf NegInf = PosInf"

fun js_div :: "jsnum \<Rightarrow> jsnum \<Rightarrow> jsnum" where
  "js_div NaN _ = NaN"
| "js_div _ NaN = NaN"
| "js_div (Fin a) (Fin b) =
     (if b = 0 then (if a = 0 then NaN else js_inf (0 < a)) else Fin (a / b))"
| "js_div (Fin a) PosInf = Fin 0"
| "js_div (Fin a) NegInf = Fin 0"
| "js_div PosInf (Fin b) = js_inf (0 \<le> b)"
| "js_div NegInf (Fin b) = js_inf (b < 0)"
| "js_div PosInf _ = NaN"
| "js_div NegInf _ = NaN"

text \<open>\<open>a < b\<close> and \<open>a > b\<close> on numbers: every comparison with NaN is false.\<close>

fun js_lt :: "jsnum \<Rightarrow> jsnum \<Rightarrow> bool" where
  "js_lt NaN _ = False"
| "js_lt _ NaN = False"
| "js_lt (Fin a) (Fin b) = (a < b)"
| "js_lt (Fin a) PosInf = True"
| "js_lt (Fin a) NegInf = False"
| "js_lt PosInf _ = False"
| "js_lt NegInf NegInf = False"
| "js_lt NegInf _ = True"

definition js_gt :: "jsnum \<Rightarrow> jsnum \<Rightarrow> bool" where
  "js_gt a b = js_lt b a"

text \<open>\<open>Math.max\<close> and \<open>Math.min\<close> of two arguments: NaN if either is NaN.\<close>

definition js_max :: "jsnum \<Rightarrow> jsnum \<Rightarrow> jsnum" where
  "js_max a b = (if a = NaN \<or> b = NaN then NaN else if js_lt a b then b else a)"

definition js_min :: "jsnum \<Rightarrow> jsnum \<Rightarrow> jsnum" where
  "js_min a b = (if a = NaN \<or> b = NaN then NaN else if js_lt b a then b else a)"


text \<open>\<open>Math.pow(v, 2)\<close>.\<close>

definition js_sq :: "jsnum \<Rightarrow> jsnum" where
  "js_sq v = js_mul v v"

text \<open>An array length or a set size used as a number.\<close>

definition js_of_nat :: "nat \<Rightarrow> jsnum" where
  "js_of_nat n = Fin (real n)"

text \<open>\<open>xs.reduce((sum, v) => sum + v, 0)\<close>.\<close>

definition js_sum :: "jsnum list \<Rightarrow> jsnum" where
  "js_sum xs = foldl js_add (Fin 0) xs"

subsection \<open>Rounding\<close>














subsection \<open>Dates\<close>

text \<open>
  A valid \<open>Date\<close> is modelled by its calendar month, counted from January of year 0
  in local time, together with its offset inside that month.  \<open>getFullYear\<close> and
  \<open>getMonth\<close> read the month count; the order of \<open>getTime()\<close> values, which is all
  the code uses of them, is the lexicographic order of the two components.  Years
  before year 0 and the invalid date are outside the model.
\<close>

datatype jsdate = Date (month_ord: nat) (in_month: nat)

definition getFullYear :: "jsdate \<Rightarrow> nat" where
  "getFullYear d = month_ord d div 12"

definition getMonth :: "jsdate \<Rightarrow> nat" where
  "getMonth d = month_ord d mod 12"

text \<open>\<open>a < b\<close> on two dates compares their time values.\<close>

definition date_lt :: "jsdate \<Rightarrow> jsdate \<Rightarrow> bool" where
  "date_lt a b = (month_ord a < month_ord b \<or> (month_ord a = month_ord b \<and> in_month a < in_month b))"

definition date_le :: "jsdate \<Rightarrow> jsdate \<Rightarrow> bool" where
  "date_le a b = (month_ord a < month_ord b \<or> (month_ord a = month_ord b \<and> in_month a \<le> in_month b))"

subsection \<open>Strings\<close>

text \<open>
  A string is a list of characters, and a character stands for the UTF-16 code unit of
  the same number: the strings covered are those whose code units are below 256 (ASCII
  and Latin-1).

  \<open>toLowerCase\<close> changes, among these, the ASCII capitals and the Latin-1 capitals
  \<open>U+00C0\<close> to \<open>U+00DE\<close> without the multiplication sign \<open>U+00D7\<close>; each goes to the
  code unit 32 above it.
\<close>

definition upperChars :: "char list" where
  "upperChars = ''ABCDEFGHIJKLMNOPQRSTUVWXYZ'' @
     [CHR 0xC0, CHR 0xC1, CHR 0xC2, CHR 0xC3, CHR 0xC4, CHR 0xC5, CHR 0xC6, CHR 0xC7,
      CHR 0xC8, CHR 0xC9, CHR 0xCA, CHR 0xCB, CHR 0xCC, CHR 0xCD, CHR 0xCE, CHR 0xCF,
      CHR 0xD0, CHR 0xD1, CHR 0xD2, CHR 0xD3, CHR 0xD4, CHR 0xD5, CHR 0xD6,
      CHR 0xD8, CHR 0xD9, CHR 0xDA, CHR 0xDB, CHR 0xDC, CHR 0xDD, CHR 0xDE]"

definition lowerChars :: "char list" where
  "lowerChars = ''abcdefghijklmnopqrstuvwxyz'' @
     [CHR 0xE0, CHR 0xE1, CHR 0xE2, CHR 0xE3, CHR 0xE4, CHR 0xE5, CHR 0xE6, CHR 0xE7,
      CHR 0xE8, CHR 0xE9, CHR 0xEA, CHR 0xEB, CHR 0xEC, CHR 0xED, CHR 0xEE, CHR 0xEF,
      CHR 0xF0, CHR 0xF1, CHR 0xF2, CHR 0xF3, CHR 0xF4, CHR 0xF5, CHR 0xF6,
      CHR 0xF8, CHR 0xF9, CHR 0xFA, CHR 0xFB, CHR 0xFC, CHR 0xFD, CHR 0xFE]"

definition toLowerChar :: "char \<Rightarrow> char" where
  "toLowerChar c = (case map_of (zip upperChars lowerChars) c of None \<Rightarrow> c | Some l \<Rightarrow> l)"

definition toLowerCase :: "string \<Rightarrow> string" where
  "toLowerCase s = map toLowerChar s"

section \<open>The data model (types)\<close>

text \<open>
  The records follow the interfaces \<open>Donation\<close> and \<open>DonorData\<close>.  Field names that
  occur in both carry the prefix \<open>donor_\<close> in \<open>DonorData\<close>; the identifier of a
  donation is \<open>donation_id\<close>.
\<close>

datatype frequency = OneTime | Occasional | Regular | Frequent

record Donation =
  donation_id :: string
  firstName :: string
  lastName :: string
  amount :: jsnum
  date :: jsdate
  month :: string
  year :: nat
  email :: "string option"
  phone :: "string option"
  donorId :: string

record DonorData =
  donor_id :: string
  donor_firstName :: string
  donor_lastName :: string
  donor_email :: "string option"
  donor_phone :: "string option"
  donations :: "Donation list"
  totalAmount :: jsnum
  donationCount :: nat
  averageDonation :: jsnum
  firstDonation :: jsdate
  lastDonation :: jsdate
  donationFrequency :: frequency

section \<open>DataParser.groupByDonor\<close>

definition calculateDonationFrequency :: "nat \<Rightarrow> frequency" where
  "calculateDonationFrequency count =
     (if count = 1 then OneTime
      else if count \<le> 3 then Occasional
      else if count \<le> 6 then Regular
      else Frequent)"

text \<open>The grouping key \<open>`${firstName.toLowerCase()}_${lastName.toLowerCase()}`\<close>.\<close>

definition donor_key :: "Donation \<Rightarrow> string" where
  "donor_key d = toLowerCase (firstName d) @ ''_'' @ toLowerCase (lastName d)"

text \<open>The donor stored for a key that the map does not have yet.\<close>

definition new_donor :: "string \<Rightarrow> Donation \<Rightarrow> DonorData" where
  "new_donor donorId' d =
     \<lparr> donor_id = donorId', donor_firstName = firstName d, donor_lastName = lastName d,
       donor_email = email d, donor_phone = phone d, donations = [],
       totalAmount = Fin 0, donationCount = 0, averageDonation = Fin 0,
       firstDonation = date d, lastDonation = date d, donationFrequency = OneTime \<rparr>"

text \<open>
  The body of the \<open>forEach\<close> after the donor has been fetched from the map: the
  donation gets its \<open>donorId\<close>, is pushed, and total, count and the two date bounds
  are updated.
\<close>

definition add_donation :: "DonorData \<Rightarrow> Donation \<Rightarrow> DonorData" where
  "add_donation donor0 d =
     (let d' = d\<lparr>donorId := donor_id donor0\<rparr>;
          donor1 = donor0\<lparr>donations := donations donor0 @ [d'],
                         totalAmount := js_add (totalAmount donor0) (amount d'),
                         donationCount := Suc (donationCount donor0)\<rparr>;
          donor2 = (if date_lt (date d') (firstDonation donor1)
                    then donor1\<lparr>firstDonation := date d'\<rparr> else donor1)
      in (if date_lt (lastDonation donor2) (date d')
          then donor2\<lparr>lastDonation := date d'\<rparr> else donor2))"

text \<open>
  One pass of the \<open>forEach\<close> body.  The \<open>Map\<close> is an association list in insertion
  order.  \<open>generateId\<close> belongs to the helpers module and is not modelled: the
  identifiers come from a supply \<open>gen\<close>, read at a counter that is threaded through.
\<close>

fun group_step :: "(nat \<Rightarrow> string) \<Rightarrow> (string \<times> DonorData) list \<times> nat \<Rightarrow> Donation
    \<Rightarrow> (string \<times> DonorData) list \<times> nat" where
  "group_step gen (donorMap, n) d =
     (case map_of donorMap (donor_key d) of
        None \<Rightarrow> (AList.update (donor_key d) (add_donation (new_donor (gen n) d) d) donorMap, Suc n)
      | Some donor \<Rightarrow> (AList.update (donor_key d) (add_donation donor d) donorMap, n))"

text \<open>The second loop: the derived fields.\<close>

definition derive_fields :: "DonorData \<Rightarrow> DonorData" where
  "derive_fields donor =
     donor\<lparr>averageDonation := js_div (totalAmount donor) (js_of_nat (donationCount donor)),
           donationFrequency := calculateDonationFrequency (donationCount donor)\<rparr>"

definition groupByDonor :: "(nat \<Rightarrow> string) \<Rightarrow> nat \<Rightarrow> Donation list \<Rightarrow> DonorData list" where
  "groupByDonor gen n ds =
     map (derive_fields \<circ> snd) (fst (foldl (group_step gen) ([], n) ds))"

section \<open>DonorAnalytics\<close>

subsection \<open>String helpers of the month key and the month label\<close>

definition isDigit :: "char \<Rightarrow> bool" where
  "isDigit c \<longleftrightarrow> c \<in> set ''0123456789''"

definition digitChar :: "nat \<Rightarrow> char" where
  "digitChar n = ''0123456789'' ! n"

definition digitVal :: "char \<Rightarrow> nat" where
  "digitVal c =
     (case map_of (zip ''0123456789'' [0, 1, 2, 3, 4, 5, 6, 7, 8, 9]) c of
        None \<Rightarrow> 0 | Some v \<Rightarrow> v)"

text \<open>\<open>String(n)\<close> and template interpolation of a non-negative integer.\<close>

fun showNat :: "nat \<Rightarrow> string" where
  "showNat n = (if n < 10 then [digitChar n] else showNat (n div 10) @ [digitChar (n mod 10)])"

declare showNat.simps [simp del]

definition padStart :: "nat \<Rightarrow> char \<Rightarrow> string \<Rightarrow> string" where
  "padStart n c s = replicate (n - length s) c @ s"

text \<open>\<open>s.split(c)\<close> for a separator of one character.\<close>

fun split_on :: "char \<Rightarrow> string \<Rightarrow> string list" where
  "split_on c [] = [[]]"
| "split_on c (x # xs) =
     (if x = c then [] # split_on c xs
      else (case split_on c xs of [] \<Rightarrow> [[x]] | w # ws \<Rightarrow> (x # w) # ws))"

text \<open>
  \<open>parseInt\<close> on a string without sign or leading blanks (the keys below have
  neither): the value of the leading digits, \<open>None\<close> standing for NaN when there
  is no leading digit.  A missing array element (\<open>undefined\<close>) also parses to NaN.
\<close>

definition parseInt :: "string \<Rightarrow> nat option" where
  "parseInt s =
     (let ds = takeWhile isDigit s
      in if ds = [] then None else Some (foldl (\<lambda>acc c. 10 * acc + digitVal c) 0 ds))"

definition parseInt_at :: "string list \<Rightarrow> nat \<Rightarrow> nat option" where
  "parseInt_at parts i = (if i < length parts then parseInt (parts ! i) else None)"

text \<open>
  \<open>new Date(y, m, 1)\<close> for a year \<open>y\<close> and a month index \<open>m \<ge> -1\<close>: the constructor
  reads a year from 0 to 99 as 1900 + y, and month overflow carries into the year.
\<close>

definition newDate_ym :: "nat \<Rightarrow> int \<Rightarrow> jsdate" where
  "newDate_ym y m = Date (nat (12 * int (if y < 100 then 1900 + y else y) + m)) 0"

definition monthAbbr :: "string list" where
  "monthAbbr = [''Jan'', ''Feb'', ''Mar'', ''Apr'', ''May'', ''Jun'',
                ''Jul'', ''Aug'', ''Sep'', ''Oct'', ''Nov'', ''Dec'']"

definition monthFull :: "string list" where
  "monthFull = [''January'', ''February'', ''March'', ''April'', ''May'', ''June'',
                ''July'', ''August'', ''September'', ''October'', ''November'', ''December'']"

text \<open>\<open>format(date, 'MMM yyyy')\<close> and \<open>format(date, 'MMMM yyyy')\<close> of date-fns.\<close>

definition format_MMM_yyyy :: "jsdate \<Rightarrow> string" where
  "format_MMM_yyyy d =
     monthAbbr ! getMonth d @ '' '' @ padStart 4 (CHR ''0'') (showNat (getFullYear d))"

definition format_MMMM_yyyy :: "jsdate \<Rightarrow> string" where
  "format_MMMM_yyyy d =
     monthFull ! getMonth d @ '' '' @ padStart 4 (CHR ''0'') (showNat (getFullYear d))"

text \<open>\<open>xs.indexOf(x)\<close>, with \<open>-1\<close> when \<open>x\<close> does not occur.\<close>

fun indexOf :: "'a list \<Rightarrow> 'a \<Rightarrow> int" where
  "indexOf [] x = -1"
| "indexOf (y # ys) x = (if y = x then 0 else (let i = indexOf ys x in if i < 0 then -1 else i + 1))"

definition getMonthNumber :: "string \<Rightarrow> int" where
  "getMonthNumber monthName = indexOf monthAbbr monthName + 1"

text \<open>
  \<open>xs.sort(cmp)\<close>: the sort is stable, so for a consistent comparator its result is
  that of insertion sort.  \<open>gt a b\<close> says that \<open>cmp(a, b)\<close> is positive.
\<close>

fun insort_cmp :: "('a \<Rightarrow> 'a \<Rightarrow> bool) \<Rightarrow> 'a \<Rightarrow> 'a list \<Rightarrow> 'a list" where
  "insort_cmp gt x [] = [x]"
| "insort_cmp gt x (y # ys) = (if gt x y then y # insort_cmp gt x ys else x # y # ys)"

definition sort_cmp :: "('a \<Rightarrow> 'a \<Rightarrow> bool) \<Rightarrow> 'a list \<Rightarrow> 'a list" where
  "sort_cmp gt xs = foldr (insort_cmp gt) xs []"

subsection \<open>calculateMonthlyTrends\<close>

record MonthlyTrend =
  trend_month :: string
  trend_year :: nat
  trend_amount :: jsnum
  donorCount :: nat
  trend_averageDonation :: jsnum

text \<open>The key \<open>`${date.getFullYear()}-${String(date.getMonth() + 1).padStart(2, '0')}`\<close>.\<close>

definition monthKey :: "jsdate \<Rightarrow> string" where
  "monthKey d = showNat (getFullYear d) @ ''-'' @ padStart 2 (CHR ''0'') (showNat (getMonth d + 1))"

text \<open>
  A bucket of \<open>monthlyData\<close> is the pair of its amount and its \<open>Set\<close> of donor
  identifiers, kept as a list without repetition in insertion order.
\<close>

definition set_add :: "'a \<Rightarrow> 'a list \<Rightarrow> 'a list" where
  "set_add x xs = (if x \<in> set xs then xs else xs @ [x])"

definition bucket_add :: "string \<Rightarrow> (string \<times> jsnum \<times> string list) list \<Rightarrow> Donation
    \<Rightarrow> (string \<times> jsnum \<times> string list) list" where
  "bucket_add donorId' monthlyData d =
     (let key = monthKey (date d);
          (a, ids) = (case map_of monthlyData key of None \<Rightarrow> (Fin 0, []) | Some b \<Rightarrow> b)
      in AList.update key (js_add a (amount d), set_add donorId' ids) monthlyData)"

definition monthlyData_of :: "DonorData list \<Rightarrow> (string \<times> jsnum \<times> string list) list" where
  "monthlyData_of donors =
     foldl (\<lambda>md donor. foldl (bucket_add (donor_id donor)) md (donations donor)) [] donors"

text \<open>
  The callback of \<open>.map\<close> over the entries.  When a part of the key does not parse,
  the date is invalid and \<open>format\<close> raises a RangeError: the result is \<open>None\<close>.
\<close>

definition to_trend :: "string \<times> jsnum \<times> string list \<Rightarrow> MonthlyTrend option" where
  "to_trend e =
     (let parts = split_on (CHR ''-'') (fst e); a = fst (snd e); ids = snd (snd e)
      in case (parseInt_at parts 0, parseInt_at parts 1) of
           (Some y, Some m) \<Rightarrow>
             Some \<lparr> trend_month = format_MMM_yyyy (newDate_ym y (int m - 1)),
                    trend_year = y,
                    trend_amount = a,
                    donorCount = length ids,
                    trend_averageDonation = js_div a (js_of_nat (length ids)) \<rparr>
         | _ \<Rightarrow> None)"

fun map_option_list :: "('a \<Rightarrow> 'b option) \<Rightarrow> 'a list \<Rightarrow> 'b list option" where
  "map_option_list f [] = Some []"
| "map_option_list f (x # xs) =
     (case f x of None \<Rightarrow> None
      | Some y \<Rightarrow> (case map_option_list f xs of None \<Rightarrow> None | Some ys \<Rightarrow> Some (y # ys)))"

text \<open>The month number the comparator reads from a label: \<open>getMonthNumber(a.month.split(' ')[0])\<close>.\<close>

definition label_month :: "MonthlyTrend \<Rightarrow> int" where
  "label_month t = getMonthNumber (hd (split_on (CHR '' '') (trend_month t)))"

text \<open>The comparator \<open>a.year - b.year || label_month a - label_month b\<close>.\<close>

definition trend_cmp :: "MonthlyTrend \<Rightarrow> MonthlyTrend \<Rightarrow> int" where
  "trend_cmp a b =
     (if int (trend_year a) - int (trend_year b) \<noteq> 0
      then int (trend_year a) - int (trend_year b)
      else label_month a - label_month b)"

definition calculateMonthlyTrends :: "DonorData list \<Rightarrow> MonthlyTrend list option" where
  "calculateMonthlyTrends donors =
     (case map_option_list to_trend (monthlyData_of donors) of
        None \<Rightarrow> None
      | Some ts \<Rightarrow> Some (sort_cmp (\<lambda>a b. 0 < trend_cmp a b) ts))"

subsection \<open>calculateRetention\<close>

record RetentionData =
  newDonors :: int
  returningDonors :: int
  retentionRate :: jsnum
  churnRate :: jsnum

definition allDonationDates :: "DonorData list \<Rightarrow> jsdate list" where
  "allDonationDates donors = concat (map (\<lambda>donor. map date (donations donor)) donors)"

text \<open>\<open>new Date(Math.max(...dates.map(d => d.getTime())))\<close> for a non-empty list.\<close>

definition mostRecent :: "jsdate list \<Rightarrow> jsdate" where
  "mostRecent ds = foldl (\<lambda>m d. if date_lt m d then d else m) (hd ds) (tl ds)"

text \<open>The first day of the month of a date: \<open>new Date(d.getFullYear(), d.getMonth(), 1)\<close>.\<close>

definition monthStart :: "jsdate \<Rightarrow> jsdate" where
  "monthStart d = newDate_ym (getFullYear d) (int (getMonth d))"

text \<open>
  \<open>subMonths(d, 1)\<close> of date-fns on the first day of a month.  The argument comes
  from \<open>monthStart\<close>, whose month count is at least 1200, so the subtraction on
  natural numbers does not truncate.
\<close>

definition subMonth :: "jsdate \<Rightarrow> jsdate" where
  "subMonth d = Date (month_ord d - 1) (in_month d)"

text \<open>The two sets of the double loop, as lists in insertion order.\<close>

definition retention_step :: "jsdate \<Rightarrow> jsdate \<Rightarrow> string \<Rightarrow> string list \<times> string list
    \<Rightarrow> Donation \<Rightarrow> string list \<times> string list" where
  "retention_step currentMonth lastMonth donorId' sets d =
     (let donationDate = monthStart (date d);
          cur = (if donationDate = currentMonth then set_add donorId' (fst sets) else fst sets);
          last = (if donationDate = lastMonth then set_add donorId' (snd sets) else snd sets)
      in (cur, last))"

definition month_sets :: "jsdate \<Rightarrow> jsdate \<Rightarrow> DonorData list \<Rightarrow> string list \<times> string list" where
  "month_sets currentMonth lastMonth donors =
     foldl (\<lambda>sets donor. foldl (retention_step currentMonth lastMonth (donor_id donor))
                            sets (donations donor)) ([], []) donors"

definition count_where :: "('a \<Rightarrow> bool) \<Rightarrow> 'a list \<Rightarrow> int" where
  "count_where P xs = int (length (filter P xs))"

definition calculateRetention :: "DonorData list \<Rightarrow> RetentionData" where
  "calculateRetention donors =
     (if length (allDonationDates donors) = 0
      then \<lparr> newDonors = 0, returningDonors = 0, retentionRate = Fin 0, churnRate = Fin 0 \<rparr>
      else
        let mostRecentDate = mostRecent (allDonationDates donors);
            currentMonth = monthStart mostRecentDate;
            lastMonth = subMonth currentMonth;
            sets = month_sets currentMonth lastMonth donors;
            currentMonthDonors = fst sets;
            lastMonthDonors = snd sets;
            returning0 = count_where (\<lambda>i. i \<in> set lastMonthDonors) currentMonthDonors;
            new0 = int (length currentMonthDonors) - returning0;
            rate0 = (if length lastMonthDonors > 0
                     then js_div (Fin (of_int returning0)) (js_of_nat (length lastMonthDonors))
                     else Fin 0);
            (returning, new, rate) =
              (if length lastMonthDonors = 0 \<or> length currentMonthDonors = 0
               then
                 let frequentDonors = count_where (\<lambda>d. donationFrequency d = Frequent
                                                       \<or> donationFrequency d = Regular) donors;
                     occasionalDonors = count_where (\<lambda>d. donationFrequency d = Occasional) donors;
                     oneTimeDonors = count_where (\<lambda>d. donationFrequency d = OneTime) donors
                 in (frequentDonors + occasionalDonors, oneTimeDonors,
                     if length donors > 0
                     then js_div (Fin (of_int (frequentDonors + occasionalDonors)))
                                 (js_of_nat (length donors))
                     else Fin 0)
               else (returning0, new0, rate0))
        in \<lparr> newDonors = new, returningDonors = returning, retentionRate = rate,
             churnRate = js_sub (Fin 1) rate \<rparr>)"

subsection \<open>calculateLinearRegression and generateForecast\<close>

record Regression =
  slope :: jsnum
  intercept :: jsnum
  rSquared :: jsnum

text \<open>\<open>values.reduce((sum, val, i) => sum + f(val, i), 0)\<close>.\<close>

definition reduce_indexed :: "(jsnum \<Rightarrow> nat \<Rightarrow> jsnum) \<Rightarrow> jsnum list \<Rightarrow> jsnum" where
  "reduce_indexed f vals =
     foldl (\<lambda>acc (i, v). js_add acc (f v i)) (Fin 0) (zip [0..<length vals] vals)"

definition calculateLinearRegression :: "jsnum list \<Rightarrow> Regression" where
  "calculateLinearRegression vals =
     (let n = js_of_nat (length vals);
          sumX = reduce_indexed (\<lambda>v i. js_of_nat i) vals;
          sumY = reduce_indexed (\<lambda>v i. v) vals;
          sumXY = reduce_indexed (\<lambda>v i. js_mul (js_of_nat i) v) vals;
          sumXX = reduce_indexed (\<lambda>v i. js_mul (js_of_nat i) (js_of_nat i)) vals;
          slope' = js_div (js_sub (js_mul n sumXY) (js_mul sumX sumY))
                          (js_sub (js_mul n sumXX) (js_mul sumX sumX));
          intercept' = js_div (js_sub sumY (js_mul slope' sumX)) n;
          yMean = js_div sumY n;
          ssRes = reduce_indexed
                    (\<lambda>v i. js_sq (js_sub v (js_add (js_mul slope' (js_of_nat i)) intercept'))) vals;
          ssTot = reduce_indexed (\<lambda>v i. js_sq (js_sub v yMean)) vals
      in \<lparr> slope = slope', intercept = intercept',
           rSquared = js_sub (Fin 1) (js_div ssRes ssTot) \<rparr>)"

definition predict :: "Regression \<Rightarrow> jsnum \<Rightarrow> jsnum" where
  "predict r x = js_add (js_mul (slope r) x) (intercept r)"

datatype direction = Up | Down | Stable

record Prediction =
  predictedAmount :: jsnum
  confidence :: jsnum

record ForecastData =
  nextMonth :: Prediction
  nextQuarter :: Prediction
  trendDirection :: direction

text \<open>\<open>xs.slice(-k)\<close>: the last \<open>k\<close> elements, all of them when there are fewer.\<close>

definition slice_last :: "nat \<Rightarrow> 'a list \<Rightarrow> 'a list" where
  "slice_last k xs = drop (length xs - k) xs"

definition generateForecast :: "MonthlyTrend list \<Rightarrow> ForecastData" where
  "generateForecast monthlyTrends =
     (if length monthlyTrends < 3
      then \<lparr> nextMonth = \<lparr> predictedAmount = Fin 0, confidence = Fin 0 \<rparr>,
             nextQuarter = \<lparr> predictedAmount = Fin 0, confidence = Fin 0 \<rparr>,
             trendDirection = Stable \<rparr>
      else
        let amounts = map trend_amount monthlyTrends;
            recentTrends = slice_last 6 amounts;
            regression = calculateLinearRegression recentTrends;
            len = length recentTrends;
            nextMonthPrediction = predict regression (js_of_nat len);
            nextQuarterPrediction =
              js_div (js_add (js_add (predict regression (js_of_nat (len + 1)))
                                     (predict regression (js_of_nat (len + 2))))
                             (predict regression (js_of_nat (len + 3))))
                     (Fin 3);
            confidence' = js_max (Fin 0) (js_min (Fin 1) (rSquared regression));
            trendDirection' =
              (if js_gt (slope regression) (Fin (1 / 10)) then Up
               else if js_lt (slope regression) (Fin (- (1 / 10))) then Down else Stable)
        in \<lparr> nextMonth = \<lparr> predictedAmount = js_max (Fin 0) nextMonthPrediction,
                             confidence = confidence' \<rparr>,
             nextQuarter = \<lparr> predictedAmount = js_max (Fin 0) nextQuarterPrediction,
                               confidence = confidence' \<rparr>,
             trendDirection = trendDirection' \<rparr>)"

subsection \<open>analyzeData\<close>

record AnalysisResult =
  totalDonors :: nat
  result_totalAmount :: jsnum
  result_averageDonation :: jsnum
  result_donationCount :: nat
  topDonors :: "DonorData list"
  monthlyTrends :: "MonthlyTrend list"
  donorRetention :: RetentionData
  forecast :: ForecastData

text \<open>
  \<open>donors.sort(...)\<close> sorts the argument array in place, so the trend and retention
  computations that follow see the donors in descending order of total amount.  The
  result is \<open>None\<close> when \<open>calculateMonthlyTrends\<close> raises.
\<close>

definition analyzeData :: "DonorData list \<Rightarrow> AnalysisResult option" where
  "analyzeData donors =
     (let totalDonors' = length donors;
          totalAmount' = foldl (\<lambda>s donor. js_add s (totalAmount donor)) (Fin 0) donors;
          donationCount' = foldl (\<lambda>s donor. s + donationCount donor) 0 donors;
          averageDonation' = js_div totalAmount' (js_of_nat donationCount');
          sorted = sort_cmp (\<lambda>a b. js_gt (js_sub (totalAmount b) (totalAmount a)) (Fin 0)) donors
      in case calculateMonthlyTrends sorted of
           None \<Rightarrow> None
         | Some trends \<Rightarrow>
             Some \<lparr> totalDonors = totalDonors',
                    result_totalAmount = totalAmount',
                    result_averageDonation = averageDonation',
                    result_donationCount = donationCount',
                    topDonors = take 10 sorted,
                    monthlyTrends = trends,
                    donorRetention = calculateRetention sorted,
                    forecast = generateForecast trends \<rparr>)"

section \<open>calculatePearsonCorrelation\<close>










section \<open>DataParser: field mapping and the record builder\<close>

subsection \<open>Strings\<close>

text \<open>
  The white space of \<open>trim\<close> and of the regular expression class \<open>\s\<close>: among the
  code units below 256 these are tab, line feed, vertical tab, form feed, carriage
  return, space and the no-break space \<open>U+00A0\<close>.
\<close>

definition isSpace :: "char \<Rightarrow> bool" where
  "isSpace c \<longleftrightarrow>
     c \<in> {CHR '' '', CHR 0x09, CHR 0x0A, CHR 0x0B, CHR 0x0C, CHR 0x0D, CHR 0xA0}"

definition isWordChar :: "char \<Rightarrow> bool" where
  "isWordChar c \<longleftrightarrow>
     c \<in> set ''abcdefghijklmnopqrstuvwxyzABCDEFGHIJKLMNOPQRSTUVWXYZ0123456789_''"

text \<open>\<open>s.trim()\<close>.\<close>

definition trim :: "string \<Rightarrow> string" where
  "trim s = rev (dropWhile isSpace (rev (dropWhile isSpace s)))"

text \<open>
  \<open>s.replace(/\s+/g, '_')\<close>: every maximal run of blanks becomes one underscore.  The
  flag says that the previous character was a blank.
\<close>

fun collapse_ws :: "bool \<Rightarrow> string \<Rightarrow> string" where
  "collapse_ws prev [] = []"
| "collapse_ws prev (c # cs) =
     (if isSpace c then (if prev then collapse_ws True cs else CHR ''_'' # collapse_ws True cs)
      else c # collapse_ws False cs)"

text \<open>\<open>s.replace(/[^\w]/g, '')\<close>.\<close>

definition stripNonWord :: "string \<Rightarrow> string" where
  "stripNonWord s = filter isWordChar s"

definition normalizeKey :: "string \<Rightarrow> string" where
  "normalizeKey key = stripNonWord (collapse_ws False (toLowerCase key))"

fun startsWith :: "string \<Rightarrow> string \<Rightarrow> bool" where
  "startsWith s [] = True"
| "startsWith [] (p # ps) = False"
| "startsWith (c # cs) (p # ps) = (c = p \<and> startsWith cs ps)"

text \<open>\<open>s.includes(sub)\<close>.\<close>

fun str_includes :: "string \<Rightarrow> string \<Rightarrow> bool" where
  "str_includes [] sub = (sub = [])"
| "str_includes (c # cs) sub = (startsWith (c # cs) sub \<or> str_includes cs sub)"

subsection \<open>Objects with string keys\<close>

text \<open>
  A cell of a row is a string: the rows come from \<open>parseCSV\<close>, which runs the CSV
  reader with \<open>dynamicTyping: false\<close>, and \<open>processRawData\<close> has no other caller.  The
  test \<open>typeof value === 'string'\<close> is therefore true and \<open>typeof value === 'number'\<close>
  false wherever the code makes them.  A raw row is the list of its entries in the
  order of \<open>Object.keys\<close>.

  \<open>normalizedRow\<close> is an object built by assignments.  An assignment to a new key
  appends a property, an assignment to an existing key changes the value in place,
  and an assignment of a string to \<open>__proto__\<close> has no effect.  \<open>Object.entries\<close>
  lists the keys that are array indices first, in ascending numeric order, then the
  other keys in the order of their creation.
\<close>

type_synonym row = "(string \<times> string) list"

definition obj_set :: "string \<Rightarrow> string \<Rightarrow> row \<Rightarrow> row" where
  "obj_set k v obj = (if k = ''__proto__'' then obj else AList.update k v obj)"

definition digitsVal :: "string \<Rightarrow> nat" where
  "digitsVal ds = foldl (\<lambda>acc c. 10 * acc + digitVal c) 0 ds"

definition isArrayIndex :: "string \<Rightarrow> bool" where
  "isArrayIndex k \<longleftrightarrow>
     k \<noteq> [] \<and> list_all isDigit k \<and> (k = ''0'' \<or> hd k \<noteq> CHR ''0'') \<and> digitsVal k < 2 ^ 32 - 1"

definition entries :: "row \<Rightarrow> row" where
  "entries obj =
     sort_cmp (\<lambda>a b. digitsVal (fst a) > digitsVal (fst b)) (filter (\<lambda>e. isArrayIndex (fst e)) obj)
     @ filter (\<lambda>e. \<not> isArrayIndex (fst e)) obj"

definition normalizeRow :: "row \<Rightarrow> row" where
  "normalizeRow r = foldl (\<lambda>obj (key, v). obj_set (normalizeKey key) v obj) [] r"

text \<open>A value that may be \<open>undefined\<close> is falsy when it is \<open>undefined\<close> or the empty string.\<close>

definition truthy :: "string option \<Rightarrow> bool" where
  "truthy v = (case v of None \<Rightarrow> False | Some s \<Rightarrow> s \<noteq> [])"

text \<open>\<open>a || b\<close>.\<close>

definition js_or :: "string option \<Rightarrow> string option \<Rightarrow> string option" where
  "js_or a b = (if truthy a then a else b)"

subsection \<open>mapFields\<close>

definition firstName_patterns :: "string list" where
  "firstName_patterns =
     [''first_name'', ''firstname'', ''fname'', ''first'', ''given_name'', ''givenname'', ''name'']"

definition lastName_patterns :: "string list" where
  "lastName_patterns =
     [''last_name'', ''lastname'', ''lname'', ''last'', ''surname'', ''family_name'', ''familyname'']"

definition amount_patterns :: "string list" where
  "amount_patterns =
     [''amount'', ''donation'', ''gift'', ''contribution'', ''value'', ''total'', ''sum'',
      ''dollars'', ''money'']"

definition date_patterns :: "string list" where
  "date_patterns =
     [''date'', ''donation_date'', ''gift_date'', ''received_date'', ''received_on'',
      ''receivedon'', ''createdon'', ''created_on'', ''timestamp'', ''when'', ''time'']"

definition month_patterns :: "string list" where
  "month_patterns = [''month'', ''donation_month'', ''gift_month'', ''period'']"

definition email_patterns :: "string list" where
  "email_patterns = [''email'', ''email_address'', ''e_mail'', ''mail'', ''emailaddress'']"

definition phone_patterns :: "string list" where
  "phone_patterns =
     [''phone'', ''phone_number'', ''telephone'', ''mobile'', ''phonenumber'', ''tel'',
      ''mobilenumber'', ''mobile_number'']"

record Mapped =
  m_firstName :: "string option"
  m_lastName :: "string option"
  m_amount :: "string option"
  m_date :: "string option"
  m_month :: "string option"
  m_email :: "string option"
  m_phone :: "string option"
  m_name :: "string option"

text \<open>
  The first loop over the patterns of one field: the first pattern that is a key of
  the normalized row decides, and the loop stops there.
\<close>

fun exact_match :: "string list \<Rightarrow> row \<Rightarrow> string option" where
  "exact_match [] nrow = None"
| "exact_match (pattern # patterns) nrow =
     (let normalizedPattern = stripNonWord pattern
      in if map_of nrow normalizedPattern \<noteq> None \<or> map_of nrow pattern \<noteq> None
         then js_or (map_of nrow normalizedPattern) (map_of nrow pattern)
         else exact_match patterns nrow)"

text \<open>
  The partial matching: the first entry whose key contains a pattern, or is
  contained in one, gives the value.
\<close>

definition partial_hit :: "string list \<Rightarrow> string \<Rightarrow> bool" where
  "partial_hit patterns key =
     list_ex (\<lambda>pattern. str_includes key (stripNonWord pattern) \<or> str_includes (stripNonWord pattern) key)
       patterns"

definition partial_match :: "string list \<Rightarrow> row \<Rightarrow> string option" where
  "partial_match patterns nrow =
     (case filter (\<lambda>e. partial_hit patterns (fst e)) (entries nrow) of
        [] \<Rightarrow> None | e # _ \<Rightarrow> Some (snd e))"

definition map_field :: "string list \<Rightarrow> row \<Rightarrow> string option" where
  "map_field patterns nrow =
     (case exact_match patterns nrow of
        None \<Rightarrow> partial_match patterns nrow
      | Some v \<Rightarrow> Some v)"

text \<open>The body of the first fall-back loop, on one entry.\<close>

definition name_fallback_step :: "string option \<times> string option \<Rightarrow> string \<times> string
    \<Rightarrow> string option \<times> string option" where
  "name_fallback_step names e =
     (let key = fst e; v = snd e; fn = fst names; ln = snd names
      in if trim v \<noteq> [] then
           (if \<not> truthy fn \<and> (str_includes key ''name'' \<or> str_includes key ''first'')
            then (Some v, ln)
            else if \<not> truthy ln \<and> (str_includes key ''last'' \<or> str_includes key ''surname'')
            then (fn, Some v)
            else (fn, ln))
         else (fn, ln))"

text \<open>\<open>/[\d.,$]/.test(value)\<close>.\<close>

definition looks_numeric :: "string \<Rightarrow> bool" where
  "looks_numeric v = list_ex (\<lambda>c. isDigit c \<or> c \<in> {CHR ''.'', CHR '','', CHR ''$''}) v"

definition amount_fallback_step :: "string option \<Rightarrow> string \<times> string \<Rightarrow> string option" where
  "amount_fallback_step am e =
     (let key = fst e; v = snd e
      in if looks_numeric v \<and>
            (str_includes key ''amount'' \<or> str_includes key ''donation'' \<or> str_includes key ''gift''
             \<or> str_includes key ''total'')
         then Some v else am)"

definition fullname_step :: "string option \<Rightarrow> string \<times> string \<Rightarrow> string option" where
  "fullname_step nm e =
     (let key = fst e; v = snd e
      in if trim v \<noteq> [] \<and> str_includes key ''name'' \<and> \<not> str_includes key ''fund''
            \<and> \<not> str_includes key ''batch''
         then Some v else nm)"

definition mapFields :: "row \<Rightarrow> Mapped" where
  "mapFields r =
     (let normalizedRow = normalizeRow r;
          fn0 = map_field firstName_patterns normalizedRow;
          ln0 = map_field lastName_patterns normalizedRow;
          am0 = map_field amount_patterns normalizedRow;
          names = (if \<not> truthy fn0 \<or> \<not> truthy ln0
                   then foldl name_fallback_step (fn0, ln0) (entries normalizedRow)
                   else (fn0, ln0));
          am = (if \<not> truthy am0
                then foldl amount_fallback_step am0 (entries normalizedRow) else am0);
          nm = (if \<not> truthy (fst names) \<and> \<not> truthy (snd names)
                then foldl fullname_step None (entries normalizedRow) else None)
      in \<lparr> m_firstName = fst names, m_lastName = snd names, m_amount = am,
           m_date = map_field date_patterns normalizedRow,
           m_month = map_field month_patterns normalizedRow,
           m_email = map_field email_patterns normalizedRow,
           m_phone = map_field phone_patterns normalizedRow,
           m_name = nm \<rparr>)"

subsection \<open>parseAmount, parseMonth, parseDate\<close>

text \<open>
  \<open>parseFloat\<close> on a string made of digits, dots and minus signs only, which is what
  \<open>parseAmount\<close> passes after its \<open>replace\<close>: an optional minus sign, digits, and an
  optional fraction are read; what follows is ignored; NaN when there is no digit.
\<close>

definition parseFloat_clean :: "string \<Rightarrow> jsnum" where
  "parseFloat_clean s =
     (let neg = (s \<noteq> [] \<and> hd s = CHR ''-'');
          r = (if neg then tl s else s);
          ip = takeWhile isDigit r;
          r' = dropWhile isDigit r;
          fp = (if r' \<noteq> [] \<and> hd r' = CHR ''.'' then takeWhile isDigit (tl r') else []);
          v = real (digitsVal ip) + real (digitsVal fp) / 10 ^ length fp
      in if ip = [] \<and> fp = [] then NaN else Fin (if neg then - v else v))"

definition parseAmount :: "string \<Rightarrow> jsnum" where
  "parseAmount v =
     (let cleaned = trim (filter (\<lambda>c. isDigit c \<or> c = CHR ''.'' \<or> c = CHR ''-'') v);
          parsed = parseFloat_clean cleaned
      in if parsed = NaN then Fin 0 else parsed)"

text \<open>\<open>xs.findIndex(P)\<close>, \<open>None\<close> standing for \<open>-1\<close>.\<close>

fun findIndex :: "('a \<Rightarrow> bool) \<Rightarrow> 'a list \<Rightarrow> nat option" where
  "findIndex P [] = None"
| "findIndex P (x # xs) = (if P x then Some 0 else map_option Suc (findIndex P xs))"

definition parseMonth :: "string \<Rightarrow> nat option" where
  "parseMonth v =
     (let monthNames = map toLowerCase monthFull; normalized = toLowerCase v
      in map_option Suc (findIndex (\<lambda>name. startsWith name normalized) monthNames))"

text \<open>
  What the parser reads from outside: the \<open>parse\<close> of date-fns for one format string
  (\<open>None\<close> when the result is not a valid date or the call raises), the native
  \<open>Date\<close> constructor on a string, the clock, and \<open>generateId\<close>.  The clock is read
  once: the time that passes during one import is not modelled.
\<close>

record Env =
  fns_parse :: "string \<Rightarrow> string \<Rightarrow> jsdate option"
  native_parse :: "string \<Rightarrow> jsdate option"
  now :: jsdate
  generateId :: "nat \<Rightarrow> string"

definition date_formats :: "string list" where
  "date_formats =
     [''MM/dd/yyyy'', ''M/d/yyyy'', ''MM-dd-yyyy'', ''M-d-yyyy'', ''yyyy-MM-dd'',
      ''dd/MM/yyyy'', ''yyyy/MM/dd'', ''dd-MM-yyyy'', ''MMM dd, yyyy'', ''dd MMM yyyy'']"

fun first_some :: "('a \<Rightarrow> 'b option) \<Rightarrow> 'a list \<Rightarrow> 'b option" where
  "first_some f [] = None"
| "first_some f (x # xs) = (case f x of None \<Rightarrow> first_some f xs | Some y \<Rightarrow> Some y)"

text \<open>The exported \<open>parseDate\<close> of the date utilities.\<close>

definition util_parseDate :: "Env \<Rightarrow> string \<Rightarrow> jsdate option" where
  "util_parseDate env dateString =
     (case first_some (fns_parse env dateString) date_formats of
        None \<Rightarrow> native_parse env dateString
      | Some parsed \<Rightarrow> Some parsed)"

text \<open>What the date branch and the month branch of \<open>DataParser.parseDate\<close> find.\<close>

definition date_branch :: "Env \<Rightarrow> string option \<Rightarrow> jsdate option" where
  "date_branch env dateValue =
     (case dateValue of None \<Rightarrow> None
      | Some s \<Rightarrow> if s = [] then None else util_parseDate env s)"

definition month_branch :: "Env \<Rightarrow> string option \<Rightarrow> jsdate option" where
  "month_branch env monthValue =
     (case monthValue of None \<Rightarrow> None
      | Some s \<Rightarrow> if s = [] then None
                  else (case parseMonth s of None \<Rightarrow> None
                        | Some mo \<Rightarrow> Some (newDate_ym (getFullYear (now env)) (int mo - 1))))"

definition parseDate :: "Env \<Rightarrow> string option \<Rightarrow> string option \<Rightarrow> jsdate" where
  "parseDate env dateValue monthValue =
     (case date_branch env dateValue of
        Some parsed \<Rightarrow> parsed
      | None \<Rightarrow> (case month_branch env monthValue of
                   Some d \<Rightarrow> d
                 | None \<Rightarrow> now env))"

definition extractMonth :: "Env \<Rightarrow> string option \<Rightarrow> string option \<Rightarrow> string" where
  "extractMonth env dateValue monthValue = format_MMMM_yyyy (parseDate env dateValue monthValue)"

definition extractYear :: "Env \<Rightarrow> string option \<Rightarrow> nat" where
  "extractYear env dateValue = getFullYear (parseDate env dateValue None)"

subsection \<open>processRawData\<close>

text \<open>\<open>parts.join(' ')\<close>.\<close>

fun join_sp :: "string list \<Rightarrow> string" where
  "join_sp [] = []"
| "join_sp [w] = w"
| "join_sp (w # ws) = w @ '' '' @ join_sp ws"

definition or_empty :: "string option \<Rightarrow> string" where
  "or_empty v = (case v of None \<Rightarrow> [] | Some s \<Rightarrow> s)"

text \<open>
  The callback of \<open>.map\<close> on one row.  The result is \<open>None\<close> for \<open>null\<close>; the flag
  returned with it says whether \<open>generateId\<close> was called.
\<close>

definition build_row :: "Env \<Rightarrow> nat \<Rightarrow> row \<Rightarrow> Donation option \<times> bool" where
  "build_row env n r =
     (let mappedRow = mapFields r
      in if (\<not> truthy (m_firstName mappedRow) \<and> \<not> truthy (m_lastName mappedRow))
            \<or> \<not> truthy (m_amount mappedRow)
         then (None, False)
         else
           let firstName0 = or_empty (m_firstName mappedRow);
               lastName0 = or_empty (m_lastName mappedRow);
               doSplit = (firstName0 = [] \<and> lastName0 = [] \<and> truthy (m_name mappedRow));
               nameParts = split_on (CHR '' '') (trim (or_empty (m_name mappedRow)));
               firstName1 = (if doSplit then hd nameParts else firstName0);
               lastName1 = (if doSplit then join_sp (tl nameParts) else lastName0)
           in if firstName1 = [] \<and> lastName1 = [] then (None, False)
              else (Some \<lparr> donation_id = generateId env n,
                           firstName = trim firstName1,
                           lastName = trim lastName1,
                           amount = parseAmount (or_empty (m_amount mappedRow)),
                           date = parseDate env (m_date mappedRow) (m_month mappedRow),
                           month = extractMonth env (m_date mappedRow) (m_month mappedRow),
                           year = extractYear env (m_date mappedRow),
                           email = (if truthy (m_email mappedRow)
                                    then Some (trim (or_empty (m_email mappedRow))) else None),
                           phone = (if truthy (m_phone mappedRow)
                                    then Some (trim (or_empty (m_phone mappedRow))) else None),
                           donorId = [] \<rparr>, True))"

text \<open>
  The predicate of \<open>.filter\<close>.  Its last conjunct, \<open>donation.date\<close>, is a \<open>Date\<close>
  object and so always truthy.
\<close>

definition keep_donation :: "Donation \<Rightarrow> bool" where
  "keep_donation d \<longleftrightarrow> (firstName d \<noteq> [] \<or> lastName d \<noteq> []) \<and> js_gt (amount d) (Fin 0) \<and> True"

fun processRawData_from :: "Env \<Rightarrow> nat \<Rightarrow> row list \<Rightarrow> Donation list \<times> nat" where
  "processRawData_from env n [] = ([], n)"
| "processRawData_from env n (r # rs) =
     (let (res, called) = build_row env n r;
          (ds, n') = processRawData_from env (if called then Suc n else n) rs
      in (case res of
            None \<Rightarrow> (ds, n')
          | Some d \<Rightarrow> (if keep_donation d then d # ds else ds, n')))"

definition processRawData :: "Env \<Rightarrow> row list \<Rightarrow> Donation list" where
  "processRawData env rawData = fst (processRawData_from env 0 rawData)"

section \<open>Notions used in the statements\<close>

subsection \<open>Grouping\<close>

text \<open>The invariant that every donor in the map satisfies between two donations.\<close>

definition donor_inv :: "DonorData \<Rightarrow> bool" where
  "donor_inv dn \<longleftrightarrow>
     totalAmount dn = js_sum (map amount (donations dn)) \<and>
     donationCount dn = length (donations dn) \<and>
     donations dn \<noteq> [] \<and>
     date_le (firstDonation dn) (lastDonation dn) \<and>
     donor_email dn = email (hd (donations dn)) \<and>
     donor_phone dn = phone (hd (donations dn))"

text \<open>
  The reading of the contact fields that takes them from the earliest donation of
  the donor that carries a non-empty value.
\<close>

definition first_carrying :: "(Donation \<Rightarrow> string option) \<Rightarrow> Donation list \<Rightarrow> string option" where
  "first_carrying f ds = (case filter (\<lambda>d. truthy (f d)) ds of [] \<Rightarrow> None | d # _ \<Rightarrow> f d)"

subsection \<open>Sample data\<close>

text \<open>
  Two gifts of one person, spelled with different capitals, in August and in
  September 2024; only the second one carries contact data.
\<close>

definition sample_gen :: "nat \<Rightarrow> string" where
  "sample_gen n = ''donor'' @ showNat n"

definition gift_aug :: Donation where
  "gift_aug = \<lparr> donation_id = ''a'', firstName = ''John'', lastName = ''Smith'',
       amount = Fin 100, date = Date (2024 * 12 + 7) 30, month = ''August 2024'', year = 2024,
       email = None, phone = None, donorId = [] \<rparr>"

definition gift_sep :: Donation where
  "gift_sep = \<lparr> donation_id = ''b'', firstName = ''john'', lastName = ''SMITH'',
       amount = Fin 50, date = Date (2024 * 12 + 8) 0, month = ''September 2024'', year = 2024,
       email = Some ''j@x.org'', phone = Some ''555'', donorId = [] \<rparr>"

text \<open>The donor that grouping the two gifts gives.\<close>

definition john_smith :: DonorData where
  "john_smith = \<lparr> donor_id = ''donor0'', donor_firstName = ''John'', donor_lastName = ''Smith'',
       donor_email = None, donor_phone = None,
       donations = [gift_aug\<lparr>donorId := ''donor0''\<rparr>, gift_sep\<lparr>donorId := ''donor0''\<rparr>],
       totalAmount = Fin 150, donationCount = 2, averageDonation = Fin 75,
       firstDonation = Date (2024 * 12 + 7) 30, lastDonation = Date (2024 * 12 + 8) 0,
       donationFrequency = Occasional \<rparr>"

subsection \<open>Retention and forecast\<close>

text \<open>
  The fall-back of \<open>calculateRetention\<close> is entered when there is a donation and the
  set of donors of the current month or of the month before is empty.
\<close>

definition fallback_mode :: "DonorData list \<Rightarrow> bool" where
  "fallback_mode donors \<longleftrightarrow>
     allDonationDates donors \<noteq> [] \<and>
     (let currentMonth = monthStart (mostRecent (allDonationDates donors));
          sets = month_sets currentMonth (subMonth currentMonth) donors
      in snd sets = [] \<or> fst sets = [])"

text \<open>A donor with two gifts in one month, and three months with the same total.\<close>

definition same_month_donor :: DonorData where
  "same_month_donor = \<lparr> donor_id = ''donor0'', donor_firstName = ''John'', donor_lastName = ''Smith'',
       donor_email = None, donor_phone = None,
       donations = [gift_aug\<lparr>donorId := ''donor0''\<rparr>, gift_aug\<lparr>donorId := ''donor0''\<rparr>],
       totalAmount = Fin 200, donationCount = 2, averageDonation = Fin 100,
       firstDonation = Date (2024 * 12 + 7) 30, lastDonation = Date (2024 * 12 + 7) 30,
       donationFrequency = Occasional \<rparr>"

definition flat_trends :: "MonthlyTrend list" where
  "flat_trends =
     [\<lparr> trend_month = ''Jan 2024'', trend_year = 2024, trend_amount = Fin 100,
        donorCount = 1, trend_averageDonation = Fin 100 \<rparr>,
      \<lparr> trend_month = ''Feb 2024'', trend_year = 2024, trend_amount = Fin 100,
        donorCount = 1, trend_averageDonation = Fin 100 \<rparr>,
      \<lparr> trend_month = ''Mar 2024'', trend_year = 2024, trend_amount = Fin 100,
        donorCount = 1, trend_averageDonation = Fin 100 \<rparr>]"

subsection \<open>Correlation\<close>









subsection \<open>Monthly trends\<close>

text \<open>The gifts of a donor list in the order of the double loop, each with the donor's identifier.\<close>

definition donor_gifts :: "DonorData list \<Rightarrow> (string \<times> Donation) list" where
  "donor_gifts donors = concat (map (\<lambda>dn. map (\<lambda>d. (donor_id dn, d)) (donations dn)) donors)"

text \<open>The identifiers that gave in the month with key \<open>k\<close>, among the gifts \<open>ps\<close>.\<close>

definition givers :: "(string \<times> Donation) list \<Rightarrow> string \<Rightarrow> string set" where
  "givers ps k = {i. \<exists>d. (i, d) \<in> set ps \<and> monthKey (date d) = k}"

text \<open>What the map of buckets satisfies after the gifts \<open>ps\<close>.\<close>

definition bucket_inv :: "(string \<times> Donation) list \<Rightarrow> (string \<times> jsnum \<times> string list) list \<Rightarrow> bool" where
  "bucket_inv ps md \<longleftrightarrow>
     distinct (map fst md) \<and>
     (\<forall>k. case map_of md k of
            None \<Rightarrow> givers ps k = {}
          | Some b \<Rightarrow> distinct (snd b) \<and> set (snd b) = givers ps k \<and> givers ps k \<noteq> {})"

text \<open>The order of two trends by year and then by the month number of the label.\<close>

definition trend_before :: "MonthlyTrend \<Rightarrow> MonthlyTrend \<Rightarrow> bool" where
  "trend_before a b \<longleftrightarrow>
     trend_year a < trend_year b \<or> (trend_year a = trend_year b \<and> label_month a < label_month b)"

text \<open>The two trends of the sample donor.\<close>

definition sample_trends :: "MonthlyTrend list" where
  "sample_trends =
     [\<lparr> trend_month = ''Aug 2024'', trend_year = 2024, trend_amount = Fin 100,
        donorCount = 1, trend_averageDonation = Fin 100 \<rparr>,
      \<lparr> trend_month = ''Sep 2024'', trend_year = 2024, trend_amount = Fin 50,
        donorCount = 1, trend_averageDonation = Fin 50 \<rparr>]"

subsection \<open>Record builder\<close>

text \<open>
  A mapped row has no usable date or month information when neither branch of
  \<open>DataParser.parseDate\<close> finds a date: the date value is missing, empty or not
  parsed, and the month value is missing, empty or not the prefix of a month name.
\<close>

definition no_date_info :: "Env \<Rightarrow> Mapped \<Rightarrow> bool" where
  "no_date_info env m \<longleftrightarrow> date_branch env (m_date m) = None \<and> month_branch env (m_month m) = None"

text \<open>The checks of the record builder that read the names and the amount only.\<close>

definition name_amount_ok :: "row \<Rightarrow> bool" where
  "name_amount_ok r \<longleftrightarrow>
     (truthy (m_firstName (mapFields r)) \<or> truthy (m_lastName (mapFields r))) \<and>
     truthy (m_amount (mapFields r)) \<and>
     (trim (or_empty (m_firstName (mapFields r))) \<noteq> []
        \<or> trim (or_empty (m_lastName (mapFields r))) \<noteq> []) \<and>
     js_gt (parseAmount (or_empty (m_amount (mapFields r)))) (Fin 0)"

text \<open>An environment in which no string parses as a date, and rows without a date.\<close>

definition sample_env :: Env where
  "sample_env = \<lparr> fns_parse = (\<lambda>s f. None), native_parse = (\<lambda>s. None),
                  now = Date (2026 * 12 + 10) 2, generateId = sample_gen \<rparr>"

definition name_row :: row where
  "name_row = [(''Name'', ''John Smith''), (''Amount'', ''$100.00'')]"

definition full_name_row :: row where
  "full_name_row = [(''Full Name'', ''John Smith''), (''Amount'', ''$100.00'')]"

definition first_and_full_row :: row where
  "first_and_full_row = [(''First'', ''John''), (''Full Name'', ''John Smith'')]"

definition blank_first_row :: row where
  "blank_first_row = [(''First'', []), (''Full Name'', ''John Smith''), (''Amount'', ''$5'')]"

definition blank_name_row :: row where
  "blank_name_row = [(''First'', []), (''Full Name'', '' ''), (''Amount'', ''$5'')]"

text \<open>
  The two tests of the first fall-back loop of \<open>mapFields\<close>: an entry whose cell is not
  blank and whose key is like a name, or like a last name.
\<close>

definition name_candidate :: "string \<times> string \<Rightarrow> bool" where
  "name_candidate e \<longleftrightarrow>
     trim (snd e) \<noteq> [] \<and> (str_includes (fst e) ''name'' \<or> str_includes (fst e) ''first'')"

definition last_candidate :: "string \<times> string \<Rightarrow> bool" where
  "last_candidate e \<longleftrightarrow>
     trim (snd e) \<noteq> [] \<and> (str_includes (fst e) ''last'' \<or> str_includes (fst e) ''surname'')"

text \<open>The list without its first element that satisfies \<open>P\<close>.\<close>

fun remove_first :: "('a \<Rightarrow> bool) \<Rightarrow> 'a list \<Rightarrow> 'a list" where
  "remove_first P [] = []"
| "remove_first P (x # xs) = (if P x then xs else x # remove_first P xs)"

text \<open>The cell of the first entry that satisfies \<open>P\<close>, and \<open>dflt\<close> when there is none.\<close>

definition first_value :: "(string \<times> string \<Rightarrow> bool) \<Rightarrow> row \<Rightarrow> string option \<Rightarrow> string option" where
  "first_value P es dflt = (case filter P es of [] \<Rightarrow> dflt | e # _ \<Rightarrow> Some (snd e))"

text \<open>
  The first name of a normalized row: the value that the first-name patterns match,
  exactly or by containment, when it is not empty; otherwise the cell of the first
  entry that is like a name, when there is one.

  The last name: the value that the last-name patterns match when it is not empty;
  otherwise the cell of the first entry that is like a last name, among the entries
  other than the one that the fall-back has taken for the first name.
\<close>

definition first_name_of :: "row \<Rightarrow> string option" where
  "first_name_of nrow =
     (let fn0 = map_field firstName_patterns nrow
      in if truthy fn0 then fn0 else first_value name_candidate (entries nrow) fn0)"

definition last_name_of :: "row \<Rightarrow> string option" where
  "last_name_of nrow =
     (let fn0 = map_field firstName_patterns nrow;
          ln0 = map_field lastName_patterns nrow
      in if truthy ln0 then ln0
         else first_value last_candidate
                (if truthy fn0 then entries nrow else remove_first name_candidate (entries nrow))
                ln0)"

text \<open>The donation that the record builder makes of \<open>full_name_row\<close>.\<close>

definition undated_gift :: Donation where
  "undated_gift = \<lparr> donation_id = ''donor0'', firstName = ''John Smith'', lastName = [],
       amount = Fin 100, date = Date (2026 * 12 + 10) 2, month = ''November 2026'', year = 2026,
       email = None, phone = None, donorId = [] \<rparr>"

section \<open>Properties of the grouping\<close>

lemma js_sum_snoc: "js_sum (xs @ [x]) = js_add (js_sum xs) x"
  by (simp add: js_sum_def)

lemma add_donation_new: "donor_inv (add_donation (new_donor i d) d)"
  by (simp add: add_donation_def new_donor_def donor_inv_def Let_def js_sum_def
      date_le_def date_lt_def)

lemma add_donation_inv: "donor_inv dn \<Longrightarrow> donor_inv (add_donation dn d)"
  by (auto simp: add_donation_def donor_inv_def Let_def js_sum_snoc date_le_def date_lt_def)

lemma update_all:
  "\<forall>(k, v) \<in> set m. P v \<Longrightarrow> P v' \<Longrightarrow> \<forall>(k, v) \<in> set (AList.update k' v' m). P v"
  by (induction m) (auto split: if_splits)

lemma group_step_inv:
  assumes "\<forall>(k, dn) \<in> set m. donor_inv dn"
  shows "\<forall>(k, dn) \<in> set (fst (group_step gen (m, n) d)). donor_inv dn"
proof (cases "map_of m (donor_key d)")
  case None
  then show ?thesis
    using update_all [OF assms add_donation_new] by simp
next
  case (Some dn)
  then have "(donor_key d, dn) \<in> set m" by (rule map_of_SomeD)
  with assms have "donor_inv dn" by auto
  then have "donor_inv (add_donation dn d)" by (rule add_donation_inv)
  with Some show ?thesis
    using update_all [OF assms] by simp
qed

lemma foldl_group_inv:
  "\<forall>(k, dn) \<in> set (fst st). donor_inv dn \<Longrightarrow>
   \<forall>(k, dn) \<in> set (fst (foldl (group_step gen) st ds)). donor_inv dn"
proof (induction ds arbitrary: st)
  case Nil
  then show ?case by simp
next
  case (Cons d ds)
  obtain m n where st: "st = (m, n)" by (cases st)
  from Cons.prems have "\<forall>(k, dn) \<in> set (fst (group_step gen (m, n) d)). donor_inv dn"
    unfolding st by (intro group_step_inv) simp
  then show ?case
    unfolding st by (simp add: Cons.IH)
qed

lemma groupByDonor_inv:
  assumes "dn \<in> set (groupByDonor gen n ds)"
  obtains dn0 where "dn = derive_fields dn0" and "donor_inv dn0"
proof -
  from assms obtain k dn0 where
    mem: "(k, dn0) \<in> set (fst (foldl (group_step gen) ([], n) ds))" and dn: "dn = derive_fields dn0"
    by (auto simp: groupByDonor_def)
  have "\<forall>(k, dn) \<in> set (fst (foldl (group_step gen) ([], n) ds)). donor_inv dn"
    by (rule foldl_group_inv) simp
  with mem have "donor_inv dn0" by auto
  with dn show thesis by (rule that)
qed

text \<open>
  C1.  Every donor that \<open>groupByDonor\<close> produces satisfies: its total is the sum of
  the amounts of its donations, its count is the length of its donation list (and is
  at least one), its average is total divided by count, its first donation is not
  after its last one, and its frequency class is the one the thresholds give:
  1 is one-time, 2 to 3 occasional, 4 to 6 regular, 7 and more frequent.
\<close>

theorem groupByDonor_invariants:
  "\<forall>dn \<in> set (groupByDonor gen n ds).
     totalAmount dn = js_sum (map amount (donations dn)) \<and>
     donationCount dn = length (donations dn) \<and>
     1 \<le> donationCount dn \<and>
     averageDonation dn = js_div (totalAmount dn) (js_of_nat (donationCount dn)) \<and>
     date_le (firstDonation dn) (lastDonation dn) \<and>
     donationFrequency dn =
       (if donationCount dn = 1 then OneTime
        else if donationCount dn \<in> {2, 3} then Occasional
        else if donationCount dn \<in> {4, 5, 6} then Regular
        else Frequent)"
proof
  fix dn assume "dn \<in> set (groupByDonor gen n ds)"
  then obtain dn0 where dn: "dn = derive_fields dn0" and inv: "donor_inv dn0"
    by (rule groupByDonor_inv)
  from inv have pos: "1 \<le> donationCount dn0"
    by (cases "donations dn0") (auto simp: donor_inv_def)
  have freq: "calculateDonationFrequency c =
       (if c = 1 then OneTime
        else if c \<in> {2, 3} then Occasional
        else if c \<in> {4, 5, 6} then Regular
        else Frequent)" if "1 \<le> c" for c
    using that unfolding calculateDonationFrequency_def by (auto; arith)
  show "totalAmount dn = js_sum (map amount (donations dn)) \<and>
     donationCount dn = length (donations dn) \<and>
     1 \<le> donationCount dn \<and>
     averageDonation dn = js_div (totalAmount dn) (js_of_nat (donationCount dn)) \<and>
     date_le (firstDonation dn) (lastDonation dn) \<and>
     donationFrequency dn =
       (if donationCount dn = 1 then OneTime
        else if donationCount dn \<in> {2, 3} then Occasional
        else if donationCount dn \<in> {4, 5, 6} then Regular
        else Frequent)"
    using inv pos freq [OF pos] unfolding dn donor_inv_def derive_fields_def by simp
qed

lemma sample_grouping: "groupByDonor sample_gen 0 [gift_aug, gift_sep] = [john_smith]"
  by (simp add: john_smith_def groupByDonor_def add_donation_def new_donor_def
      donor_key_def toLowerCase_def toLowerChar_def upperChars_def lowerChars_def derive_fields_def date_lt_def js_of_nat_def
      calculateDonationFrequency_def gift_aug_def gift_sep_def Let_def sample_gen_def
      showNat.simps digitChar_def)

theorem groupByDonor_invariants_witness:
  "john_smith \<in> set (groupByDonor sample_gen 0 [gift_aug, gift_sep]) \<and>
   totalAmount john_smith = js_sum (map amount (donations john_smith)) \<and>
   donationCount john_smith = length (donations john_smith) \<and>
   averageDonation john_smith
     = js_div (totalAmount john_smith) (js_of_nat (donationCount john_smith)) \<and>
   date_le (firstDonation john_smith) (lastDonation john_smith) \<and>
   donationFrequency john_smith = Occasional"
proof -
  have mem: "john_smith \<in> set (groupByDonor sample_gen 0 [gift_aug, gift_sep])"
    by (simp add: sample_grouping)
  have two: "donationCount john_smith = 2" by (simp add: john_smith_def)
  show ?thesis
    using groupByDonor_invariants [of sample_gen 0 "[gift_aug, gift_sep]"] mem two by auto
qed

text \<open>
  C9, as the claim reads it: the contact fields of a donor would be those of the
  earliest of its donations that carries a non-empty value.  The grouped sample
  donor refutes that: its first gift has neither e-mail nor phone, its second gift
  has both, and the donor has neither.
\<close>

theorem contact_first_carrying_counterexample:
  "john_smith \<in> set (groupByDonor sample_gen 0 [gift_aug, gift_sep]) \<and>
   email (hd (donations john_smith)) = None \<and>
   donor_email john_smith = None \<and>
   first_carrying email (donations john_smith) = Some ''j@x.org'' \<and>
   donor_email john_smith \<noteq> first_carrying email (donations john_smith) \<and>
   donor_phone john_smith \<noteq> first_carrying phone (donations john_smith)"
proof -
  have mem: "john_smith \<in> set (groupByDonor sample_gen 0 [gift_aug, gift_sep])"
    by (simp add: sample_grouping)
  then show ?thesis
    by (simp add: john_smith_def first_carrying_def truthy_def gift_aug_def gift_sep_def)
qed

text \<open>
  C9, amended: every donor that \<open>groupByDonor\<close> produces has at least one donation,
  and its e-mail and phone are those of its first donation, present or not; later
  donations never change them.
\<close>

theorem contact_from_first_donation:
  "\<forall>dn \<in> set (groupByDonor gen n ds).
     donations dn \<noteq> [] \<and>
     donor_email dn = email (hd (donations dn)) \<and>
     donor_phone dn = phone (hd (donations dn))"
proof
  fix dn assume "dn \<in> set (groupByDonor gen n ds)"
  then obtain dn0 where dn: "dn = derive_fields dn0" and inv: "donor_inv dn0"
    by (rule groupByDonor_inv)
  from inv show "donations dn \<noteq> [] \<and>
     donor_email dn = email (hd (donations dn)) \<and>
     donor_phone dn = phone (hd (donations dn))"
    unfolding dn donor_inv_def derive_fields_def by simp
qed

theorem contact_from_first_donation_witness:
  "john_smith \<in> set (groupByDonor sample_gen 0 [gift_aug, gift_sep]) \<and>
   donations john_smith \<noteq> [] \<and>
   donor_email john_smith = email (hd (donations john_smith)) \<and>
   donor_phone john_smith = phone (hd (donations john_smith))"
proof -
  have mem: "john_smith \<in> set (groupByDonor sample_gen 0 [gift_aug, gift_sep])"
    by (simp add: sample_grouping)
  show ?thesis
    using contact_from_first_donation [of sample_gen 0 "[gift_aug, gift_sep]"] mem by auto
qed

section \<open>Properties of the retention calculator\<close>

lemma same_month_grouping: "groupByDonor sample_gen 0 [gift_aug, gift_aug] = [same_month_donor]"
  by (simp add: same_month_donor_def groupByDonor_def add_donation_def new_donor_def
      donor_key_def toLowerCase_def toLowerChar_def upperChars_def lowerChars_def derive_fields_def date_lt_def js_of_nat_def
      calculateDonationFrequency_def gift_aug_def Let_def sample_gen_def
      showNat.simps digitChar_def)

lemma same_month_sets:
  "allDonationDates [same_month_donor] = [Date 24295 30, Date 24295 30] \<and>
   month_sets (Date 24295 0) (Date 24294 0) [same_month_donor] = ([''donor0''], [])"
  by (simp add: allDonationDates_def same_month_donor_def gift_aug_def month_sets_def
      retention_step_def monthStart_def newDate_ym_def getFullYear_def getMonth_def set_add_def Let_def)

lemma same_month_fallback: "fallback_mode [same_month_donor]"
  using same_month_sets
  by (simp add: fallback_mode_def mostRecent_def date_lt_def monthStart_def newDate_ym_def
      getFullYear_def getMonth_def subMonth_def Let_def)

lemma same_month_retention:
  "calculateRetention [same_month_donor] =
     \<lparr> newDonors = 0, returningDonors = 1, retentionRate = Fin 1, churnRate = Fin 0 \<rparr>"
  using same_month_sets
  by (simp add: calculateRetention_def mostRecent_def date_lt_def monthStart_def newDate_ym_def
      getFullYear_def getMonth_def subMonth_def Let_def count_where_def js_of_nat_def js_sub_def)
    (simp add: same_month_donor_def)

text \<open>
  C3, as the claim reads it: in the fall-back the returning donors would be the
  donors classified frequent or regular.  A single donor with two gifts in one month
  is classified occasional; the fall-back is entered and counts that donor as
  returning, while no donor is frequent or regular.
\<close>

theorem fallback_returning_counterexample:
  "fallback_mode [same_month_donor] \<and>
   returningDonors (calculateRetention [same_month_donor]) = 1 \<and>
   count_where (\<lambda>d. donationFrequency d = Frequent \<or> donationFrequency d = Regular)
     [same_month_donor] = 0"
  using same_month_fallback same_month_retention
  by (simp add: count_where_def same_month_donor_def)

text \<open>
  C3, amended: in the fall-back the returning donors are the donors classified
  frequent or regular together with those classified occasional, the new donors are
  the donors classified one-time, and the retention rate is the number of returning
  donors divided by the number of donors, which is not zero there.
\<close>

theorem fallback_retention:
  assumes "fallback_mode donors"
  shows "returningDonors (calculateRetention donors)
           = count_where (\<lambda>d. donationFrequency d = Frequent \<or> donationFrequency d = Regular) donors
             + count_where (\<lambda>d. donationFrequency d = Occasional) donors
         \<and> newDonors (calculateRetention donors)
           = count_where (\<lambda>d. donationFrequency d = OneTime) donors
         \<and> donors \<noteq> []
         \<and> retentionRate (calculateRetention donors)
           = js_div (Fin (of_int (returningDonors (calculateRetention donors)))) (js_of_nat (length donors))"
proof -
  from assms have ne: "allDonationDates donors \<noteq> []"
    and fb: "snd (month_sets (monthStart (mostRecent (allDonationDates donors)))
                   (subMonth (monthStart (mostRecent (allDonationDates donors)))) donors) = []
           \<or> fst (month_sets (monthStart (mostRecent (allDonationDates donors)))
                   (subMonth (monthStart (mostRecent (allDonationDates donors)))) donors) = []"
    by (simp_all add: fallback_mode_def Let_def)
  from ne have dne: "donors \<noteq> []" by (auto simp: allDonationDates_def)
  show ?thesis
    using ne fb dne unfolding calculateRetention_def Let_def
    by (simp del: of_int_add)
qed

theorem fallback_retention_witness:
  "fallback_mode [same_month_donor] \<and>
   returningDonors (calculateRetention [same_month_donor]) = 0 + 1 \<and>
   newDonors (calculateRetention [same_month_donor]) = 0 \<and>
   retentionRate (calculateRetention [same_month_donor]) = Fin 1"
  using fallback_retention [OF same_month_fallback] same_month_fallback
  by (simp add: count_where_def same_month_donor_def js_of_nat_def)

text \<open>
  C4, as the claim reads it: the churn rate would be one minus the retention rate for
  every donor list.  For a list without donations the code returns both rates as 0.
\<close>

theorem churn_empty_counterexample:
  "allDonationDates [] = [] \<and>
   retentionRate (calculateRetention []) = Fin 0 \<and>
   churnRate (calculateRetention []) = Fin 0 \<and>
   churnRate (calculateRetention []) \<noteq> js_sub (Fin 1) (retentionRate (calculateRetention []))"
  by (simp add: calculateRetention_def allDonationDates_def js_sub_def)

text \<open>
  C4, amended: the churn rate is one minus the retention rate whenever the donor
  list holds a donation; for a list without donations the retention rate and the churn
  rate are both 0.
\<close>

theorem churn_complement:
  "(if allDonationDates donors = []
    then retentionRate (calculateRetention donors) = Fin 0 \<and>
         churnRate (calculateRetention donors) = Fin 0
    else churnRate (calculateRetention donors) =
           js_sub (Fin 1) (retentionRate (calculateRetention donors)))"
  by (simp add: calculateRetention_def Let_def split: prod.splits)

theorem churn_complement_witness:
  "allDonationDates [] = [] \<and>
   retentionRate (calculateRetention []) = Fin 0 \<and>
   churnRate (calculateRetention []) = Fin 0 \<and>
   allDonationDates [same_month_donor] \<noteq> [] \<and>
   retentionRate (calculateRetention [same_month_donor]) = Fin 1 \<and>
   churnRate (calculateRetention [same_month_donor]) = js_sub (Fin 1) (Fin 1)"
proof -
  have empty: "allDonationDates [] = []" by (simp add: allDonationDates_def)
  have full: "allDonationDates [same_month_donor] \<noteq> []" using same_month_sets by simp
  from churn_complement [of "[]"] empty
  have "retentionRate (calculateRetention []) = Fin 0 \<and> churnRate (calculateRetention []) = Fin 0"
    by simp
  moreover from churn_complement [of "[same_month_donor]"] full same_month_retention
  have "churnRate (calculateRetention [same_month_donor]) = js_sub (Fin 1) (Fin 1)"
    by simp
  ultimately show ?thesis using empty full same_month_retention by simp
qed

section \<open>Division by zero in the forecast and in the overall average\<close>

lemma regression_constant:
  assumes "k \<in> {3, 4, 5, 6}"
  shows "rSquared (calculateLinearRegression (replicate k (Fin c))) = NaN"
proof -
  from assms consider "k = 3" | "k = 4" | "k = 5" | "k = 6" by auto
  then show ?thesis
  proof cases
    case 1
    have "replicate k (Fin c) = [Fin c, Fin c, Fin c]" unfolding 1 by (simp add: numeral_3_eq_3)
    then show ?thesis
      by (simp add: calculateLinearRegression_def reduce_indexed_def upt_rec js_of_nat_def
          js_sub_def js_sq_def Let_def algebra_simps)
  next
    case 2
    have "replicate k (Fin c) = [Fin c, Fin c, Fin c, Fin c]" unfolding 2 by (simp add: numeral_eq_Suc)
    then show ?thesis
      by (simp add: calculateLinearRegression_def reduce_indexed_def upt_rec js_of_nat_def
          js_sub_def js_sq_def Let_def algebra_simps)
  next
    case 3
    have "replicate k (Fin c) = [Fin c, Fin c, Fin c, Fin c, Fin c]" unfolding 3 by (simp add: numeral_eq_Suc)
    then show ?thesis
      by (simp add: calculateLinearRegression_def reduce_indexed_def upt_rec js_of_nat_def
          js_sub_def js_sq_def Let_def algebra_simps)
  next
    case 4
    have "replicate k (Fin c) = [Fin c, Fin c, Fin c, Fin c, Fin c, Fin c]" unfolding 4 by (simp add: numeral_eq_Suc)
    then show ?thesis
      by (simp add: calculateLinearRegression_def reduce_indexed_def upt_rec js_of_nat_def
          js_sub_def js_sq_def Let_def algebra_simps)
  qed
qed

text \<open>
  C5 says that a constant window of monthly amounts gives confidence 0.  For every
  sequence of at least three trends whose last six amounts (or all of them, when
  there are fewer) are one and the same finite number, the regression divides 0 by 0
  for R squared, and the NaN passes through \<open>Math.min\<close> and \<open>Math.max\<close>: both
  confidences are NaN.
\<close>

theorem forecast_constant_confidence:
  assumes "3 \<le> length ts"
    and "\<forall>a \<in> set (slice_last 6 (map trend_amount ts)). a = Fin c"
  shows "confidence (nextMonth (generateForecast ts)) = NaN \<and>
         confidence (nextQuarter (generateForecast ts)) = NaN"
proof -
  let ?w = "slice_last 6 (map trend_amount ts)"
  have len: "length ?w \<in> {3, 4, 5, 6}"
    using assms(1) by (auto simp: slice_last_def)
  from assms(2) have "?w = replicate (length ?w) (Fin c)"
    by (simp add: replicate_length_same)
  with regression_constant [OF len, of c]
  have "rSquared (calculateLinearRegression ?w) = NaN" by simp
  with assms(1) show ?thesis
    by (simp add: generateForecast_def Let_def js_max_def js_min_def)
qed

theorem forecast_flat_confidence:
  "length flat_trends = 3 \<and>
   slice_last 6 (map trend_amount flat_trends) = [Fin 100, Fin 100, Fin 100] \<and>
   confidence (nextMonth (generateForecast flat_trends)) = NaN \<and>
   confidence (nextQuarter (generateForecast flat_trends)) = NaN"
proof -
  have w: "slice_last 6 (map trend_amount flat_trends) = [Fin 100, Fin 100, Fin 100]"
    by (simp add: flat_trends_def slice_last_def)
  have "3 \<le> length flat_trends" by (simp add: flat_trends_def)
  moreover have "\<forall>a \<in> set (slice_last 6 (map trend_amount flat_trends)). a = Fin 100"
    unfolding w by simp
  ultimately have "confidence (nextMonth (generateForecast flat_trends)) = NaN \<and>
         confidence (nextQuarter (generateForecast flat_trends)) = NaN"
    by (rule forecast_constant_confidence)
  with w show ?thesis by (simp add: flat_trends_def)
qed

text \<open>
  C6 says that \<open>analyzeData\<close> on an empty donor list returns a zero average.  The
  code divides the total 0 by the count 0: the average is NaN.
\<close>

theorem analyzeData_empty_average:
  "map_option result_averageDonation (analyzeData []) = Some NaN \<and>
   map_option result_donationCount (analyzeData []) = Some 0"
  by (simp add: analyzeData_def calculateMonthlyTrends_def monthlyData_of_def sort_cmp_def
      js_of_nat_def Let_def)

section \<open>Properties of the Pearson coefficient\<close>



lemma js_neg_inf: "js_neg (js_inf p) = js_inf (\<not> p)"
  by (simp add: js_inf_def)



















subsection \<open>The coefficient from the sums\<close>


subsection \<open>Negation\<close>







subsection \<open>Sums that do not round\<close>













subsection \<open>The three properties\<close>




section \<open>Properties of the monthly trends\<close>


lemma digit_facts:
  "d < 10 \<Longrightarrow> digitVal (digitChar d) = d \<and> isDigit (digitChar d)"
proof -
  assume "d < 10"
  then have "d = 0 \<or> d = 1 \<or> d = 2 \<or> d = 3 \<or> d = 4 \<or> d = 5 \<or> d = 6 \<or> d = 7
      \<or> d = 8 \<or> d = 9" by arith
  then show ?thesis
    by (elim disjE) (simp_all add: digitVal_def digitChar_def isDigit_def)
qed

lemma showNat_digits: "list_all isDigit (showNat n)"
proof (induction n rule: showNat.induct)
  case (1 n)
  show ?case
  proof (cases "n < 10")
    case True
    then show ?thesis by (subst showNat.simps) (simp add: digit_facts)
  next
    case False
    then have "n mod 10 < 10" by simp
    with False 1 show ?thesis by (subst showNat.simps) (simp add: digit_facts)
  qed
qed

lemma showNat_nonempty: "showNat n \<noteq> []"
  by (subst showNat.simps) simp

lemma digitsVal_snoc: "digitsVal (s @ [c]) = 10 * digitsVal s + digitVal c"
  by (simp add: digitsVal_def)

lemma digitsVal_showNat: "digitsVal (showNat n) = n"
proof (induction n rule: showNat.induct)
  case (1 n)
  show ?case
  proof (cases "n < 10")
    case True
    then show ?thesis by (subst showNat.simps) (simp add: digit_facts digitsVal_def)
  next
    case False
    then have "n mod 10 < 10" by simp
    with False 1 show ?thesis
      by (subst showNat.simps) (simp add: digit_facts digitsVal_snoc)
  qed
qed

lemma digitsVal_pad: "digitsVal (replicate k (CHR ''0'') @ s) = digitsVal s"
proof -
  have "foldl (\<lambda>acc c. 10 * acc + digitVal c) 0 (replicate k (CHR ''0'')) = 0"
    by (induction k) (simp_all add: digitVal_def)
  then show ?thesis by (simp add: digitsVal_def)
qed

lemma parseInt_digits:
  "list_all isDigit s \<Longrightarrow> s \<noteq> [] \<Longrightarrow> parseInt s = Some (digitsVal s)"
  by (simp add: parseInt_def digitsVal_def list_all_iff takeWhile_eq_all_conv[THEN iffD2])

lemma parseInt_showNat: "parseInt (showNat n) = Some n"
  using parseInt_digits [OF showNat_digits showNat_nonempty] by (simp add: digitsVal_showNat)

lemma padStart_digits: "list_all isDigit (padStart k (CHR ''0'') (showNat n))"
proof -
  have z: "isDigit (CHR ''0'')" by (simp add: isDigit_def)
  have "list_all isDigit (replicate j (CHR ''0''))" for j
    using z by (induction j) simp_all
  with showNat_digits [of n] show ?thesis by (simp add: padStart_def)
qed

lemma parseInt_padded: "parseInt (padStart k (CHR ''0'') (showNat n)) = Some n"
proof -
  have "list_all isDigit (padStart k (CHR ''0'') (showNat n))"
    by (rule padStart_digits)
  moreover have "padStart k (CHR ''0'') (showNat n) \<noteq> []"
    by (simp add: padStart_def showNat_nonempty)
  ultimately show ?thesis
    using parseInt_digits by (simp add: padStart_def digitsVal_pad digitsVal_showNat)
qed

lemma split_on_absent: "c \<notin> set s \<Longrightarrow> split_on c s = [s]"
  by (induction s) auto

lemma split_on_first:
  "c \<notin> set s \<Longrightarrow> split_on c (s @ c # r) = s # split_on c r"
  by (induction s) auto

lemma digits_no_sep:
  "list_all isDigit s \<Longrightarrow> CHR ''-'' \<notin> set s"
proof -
  have "\<not> isDigit (CHR ''-'')" by (simp add: isDigit_def)
  then show "list_all isDigit s \<Longrightarrow> CHR ''-'' \<notin> set s"
    by (auto simp: list_all_iff)
qed

lemma split_monthKey:
  "split_on (CHR ''-'') (monthKey d)
   = [showNat (getFullYear d), padStart 2 (CHR ''0'') (showNat (getMonth d + 1))]"
proof -
  have a: "CHR ''-'' \<notin> set (showNat (getFullYear d))"
    by (rule digits_no_sep) (rule showNat_digits)
  have "list_all isDigit (padStart 2 (CHR ''0'') (showNat (getMonth d + 1)))"
    by (rule padStart_digits)
  then have b: "CHR ''-'' \<notin> set (padStart 2 (CHR ''0'') (showNat (getMonth d + 1)))"
    by (rule digits_no_sep)
  show ?thesis
    unfolding monthKey_def using split_on_first [OF a] split_on_absent [OF b] by simp
qed

lemma monthKey_parts:
  "parseInt_at (split_on (CHR ''-'') (monthKey d)) 0 = Some (getFullYear d)"
  "parseInt_at (split_on (CHR ''-'') (monthKey d)) (Suc 0) = Some (getMonth d + 1)"
  by (simp_all add: split_monthKey parseInt_at_def parseInt_showNat parseInt_padded)

lemma monthKey_eq_iff: "monthKey d = monthKey d' \<longleftrightarrow> month_ord d = month_ord d'"
proof
  assume e: "monthKey d = monthKey d'"
  have "Some (getFullYear d) = Some (getFullYear d')"
    using monthKey_parts(1) [of d] monthKey_parts(1) [of d'] e by simp
  moreover have "Some (getMonth d + 1) = Some (getMonth d' + 1)"
    using monthKey_parts(2) [of d] monthKey_parts(2) [of d'] e by simp
  ultimately have "month_ord d div 12 = month_ord d' div 12" "month_ord d mod 12 = month_ord d' mod 12"
    by (simp_all add: getFullYear_def getMonth_def)
  then show "month_ord d = month_ord d'"
    by (metis div_mult_mod_eq)
next
  assume "month_ord d = month_ord d'"
  then show "monthKey d = monthKey d'"
    by (simp add: monthKey_def getFullYear_def getMonth_def)
qed

lemma monthAbbr_facts:
  assumes "i < 12"
  shows "hd (split_on (CHR '' '') (monthAbbr ! i @ '' '' @ r)) = monthAbbr ! i"
    and "getMonthNumber (monthAbbr ! i) = int i + 1"
proof -
  from assms have "i = 0 \<or> i = 1 \<or> i = 2 \<or> i = 3 \<or> i = 4 \<or> i = 5 \<or> i = 6 \<or> i = 7
      \<or> i = 8 \<or> i = 9 \<or> i = 10 \<or> i = 11" by arith
  then have "CHR '' '' \<notin> set (monthAbbr ! i) \<and> getMonthNumber (monthAbbr ! i) = int i + 1"
    by (elim disjE) (simp_all add: monthAbbr_def getMonthNumber_def)
  then show "hd (split_on (CHR '' '') (monthAbbr ! i @ '' '' @ r)) = monthAbbr ! i"
    and "getMonthNumber (monthAbbr ! i) = int i + 1"
    using split_on_first [of "CHR '' ''" "monthAbbr ! i" r] by simp_all
qed

lemma newDate_ym_month: "0 \<le> m \<Longrightarrow> m < 12 \<Longrightarrow> getMonth (newDate_ym y m) = nat m"
proof -
  assume m: "0 \<le> m" "m < 12"
  define y' where "y' = (if y < 100 then 1900 + y else y)"
  have "nat (12 * int y' + m) = 12 * y' + nat m" using m by (simp add: nat_add_distrib)
  then show ?thesis using m unfolding getMonth_def newDate_ym_def y'_def [symmetric]
    by simp
qed

text \<open>What \<open>to_trend\<close> makes of the bucket of a month.\<close>

lemma to_trend_monthKey:
  "\<exists>t. to_trend (monthKey d, a, ids) = Some t \<and> trend_year t = getFullYear d \<and>
       label_month t = int (getMonth d) + 1 \<and> trend_amount t = a \<and> donorCount t = length ids"
proof -
  have m: "getMonth d < 12" by (simp add: getMonth_def)
  have gm: "getMonth (newDate_ym (getFullYear d) (int (getMonth d))) = getMonth d"
    using newDate_ym_month [of "int (getMonth d)" "getFullYear d"] m by simp
  show ?thesis
    using monthAbbr_facts [OF m]
    by (simp add: to_trend_def monthKey_parts label_month_def format_MMM_yyyy_def gm)
qed


lemma monthlyData_of_gifts:
  "monthlyData_of donors = foldl (\<lambda>md (i, d). bucket_add i md d) [] (donor_gifts donors)"
proof -
  have inner: "foldl (bucket_add i) md ds
               = foldl (\<lambda>md (i, d). bucket_add i md d) md (map (\<lambda>d. (i, d)) ds)" for i md ds
    by (induction ds arbitrary: md) simp_all
  have "foldl (\<lambda>md donor. foldl (bucket_add (donor_id donor)) md (donations donor)) md0 donors
        = foldl (\<lambda>md (i, d). bucket_add i md d) md0 (donor_gifts donors)" for md0
    by (induction donors arbitrary: md0) (simp_all add: donor_gifts_def inner)
  then show ?thesis by (simp add: monthlyData_of_def)
qed

lemma givers_snoc:
  "givers (ps @ [(i, d)]) k = (if monthKey (date d) = k then insert i (givers ps k) else givers ps k)"
  by (auto simp: givers_def)

lemma set_add_props: "distinct xs \<Longrightarrow> distinct (set_add x xs) \<and> set (set_add x xs) = insert x (set xs)"
  by (auto simp: set_add_def)

lemma bucket_step:
  assumes "bucket_inv ps md"
  shows "bucket_inv (ps @ [(i, d)]) (bucket_add i md d)"
proof -
  define key where "key = monthKey (date d)"
  from assms have dist: "distinct (map fst md)"
    and each: "\<And>k. case map_of md k of
            None \<Rightarrow> givers ps k = {}
          | Some b \<Rightarrow> distinct (snd b) \<and> set (snd b) = givers ps k \<and> givers ps k \<noteq> {}"
    by (simp_all add: bucket_inv_def)
  obtain a ids where b: "(case map_of md key of None \<Rightarrow> (Fin 0, []) | Some b \<Rightarrow> b) = (a, ids)"
    by (cases "case map_of md key of None \<Rightarrow> (Fin 0, []) | Some b \<Rightarrow> b") auto
  have ids: "distinct ids \<and> set ids = givers ps key"
    using each [of key] b by (cases "map_of md key") auto
  have res: "bucket_add i md d = AList.update key (js_add a (amount d), set_add i ids) md"
    by (simp add: bucket_add_def key_def [symmetric] b Let_def)
  have new: "distinct (set_add i ids) \<and> set (set_add i ids) = insert i (givers ps key)"
    using ids set_add_props [of ids i] by simp
  show ?thesis
    unfolding bucket_inv_def res
  proof (intro conjI allI)
    show "distinct (map fst (AList.update key (js_add a (amount d), set_add i ids) md))"
      using dist by (rule distinct_update)
  next
    fix k
    show "case map_of (AList.update key (js_add a (amount d), set_add i ids) md) k of
            None \<Rightarrow> givers (ps @ [(i, d)]) k = {}
          | Some b \<Rightarrow> distinct (snd b) \<and> set (snd b) = givers (ps @ [(i, d)]) k
                      \<and> givers (ps @ [(i, d)]) k \<noteq> {}"
    proof (cases "k = key")
      case True
      then show ?thesis
        using new by (simp add: update_conv' givers_snoc key_def)
    next
      case False
      then have "givers (ps @ [(i, d)]) k = givers ps k"
        by (auto simp: givers_snoc key_def)
      with False show ?thesis
        using each [of k] by (auto simp: update_conv' split: option.splits)
    qed
  qed
qed

lemma bucket_inv_foldl: "bucket_inv ps (foldl (\<lambda>md (i, d). bucket_add i md d) [] ps)"
proof (induction ps rule: rev_induct)
  case Nil
  then show ?case by (simp add: bucket_inv_def givers_def)
next
  case (snoc p ps)
  obtain i d where p: "p = (i, d)" by (cases p)
  from snoc show ?case unfolding p by (simp add: bucket_step)
qed

lemma monthlyData_inv: "bucket_inv (donor_gifts donors) (monthlyData_of donors)"
  unfolding monthlyData_of_gifts by (rule bucket_inv_foldl)

text \<open>Every bucket belongs to the month of some gift.\<close>

lemma bucket_entry:
  assumes "bucket_inv ps md" and "(k, a, ids) \<in> set md"
  shows "distinct ids \<and> set ids = givers ps k \<and> (\<exists>i d. (i, d) \<in> set ps \<and> monthKey (date d) = k)"
proof -
  from assms have "map_of md k = Some (a, ids)" by (simp add: bucket_inv_def)
  moreover from assms(1) have "case map_of md k of
            None \<Rightarrow> givers ps k = {}
          | Some b \<Rightarrow> distinct (snd b) \<and> set (snd b) = givers ps k \<and> givers ps k \<noteq> {}"
    by (simp add: bucket_inv_def)
  ultimately have "distinct ids \<and> set ids = givers ps k \<and> givers ps k \<noteq> {}"
    by simp
  then show ?thesis by (auto simp: givers_def)
qed

lemma bucket_present:
  assumes "bucket_inv ps md" and "(i, d) \<in> set ps"
  shows "\<exists>a ids. (monthKey (date d), a, ids) \<in> set md"
proof -
  from assms(2) have "givers ps (monthKey (date d)) \<noteq> {}" by (auto simp: givers_def)
  moreover from assms(1) have "case map_of md (monthKey (date d)) of
            None \<Rightarrow> givers ps (monthKey (date d)) = {}
          | Some b \<Rightarrow> distinct (snd b) \<and> set (snd b) = givers ps (monthKey (date d))
                      \<and> givers ps (monthKey (date d)) \<noteq> {}"
    by (simp add: bucket_inv_def)
  ultimately obtain b where "map_of md (monthKey (date d)) = Some b"
    by (cases "map_of md (monthKey (date d))") auto
  then have "(monthKey (date d), b) \<in> set md" by (rule map_of_SomeD)
  then show ?thesis by (cases b) auto
qed


subsection \<open>The sort\<close>

lemma set_insort_cmp: "set (insort_cmp gt x ys) = insert x (set ys)"
  by (induction ys) auto

lemma set_sort_cmp: "set (sort_cmp gt xs) = set xs"
  by (induction xs) (simp_all add: sort_cmp_def set_insort_cmp)

lemma distinct_map_insort:
  "distinct (map f (insort_cmp gt x ys)) \<longleftrightarrow> f x \<notin> f ` set ys \<and> distinct (map f ys)"
  by (induction ys) (auto simp: set_insort_cmp)

lemma distinct_map_sort: "distinct (map f (sort_cmp gt xs)) \<longleftrightarrow> distinct (map f xs)"
  by (induction xs) (simp_all add: sort_cmp_def distinct_map_insort set_sort_cmp [unfolded
      sort_cmp_def])

lemma sorted_insort_cmp:
  assumes trans: "\<And>a b c. \<not> gt a b \<Longrightarrow> \<not> gt b c \<Longrightarrow> \<not> gt a c"
    and asym: "\<And>a b. gt a b \<Longrightarrow> \<not> gt b a"
    and sorted: "sorted_wrt (\<lambda>a b. \<not> gt a b) ys"
  shows "sorted_wrt (\<lambda>a b. \<not> gt a b) (insort_cmp gt x ys)"
  using sorted
proof (induction ys)
  case Nil
  then show ?case by simp
next
  case (Cons y ys)
  show ?case
  proof (cases "gt x y")
    case True
    with Cons asym show ?thesis by (auto simp: set_insort_cmp)
  next
    case False
    with Cons.prems trans show ?thesis by auto
  qed
qed

lemma sorted_sort_cmp:
  assumes "\<And>a b c. \<not> gt a b \<Longrightarrow> \<not> gt b c \<Longrightarrow> \<not> gt a c"
    and "\<And>a b. gt a b \<Longrightarrow> \<not> gt b a"
  shows "sorted_wrt (\<lambda>a b. \<not> gt a b) (sort_cmp gt xs)"
proof (induction xs)
  case Nil
  then show ?case by (simp add: sort_cmp_def)
next
  case (Cons x xs)
  then show ?case
    using sorted_insort_cmp [of gt "foldr (insort_cmp gt) xs []" x, OF assms]
    by (simp add: sort_cmp_def)
qed

lemma sorted_wrt_distinct_strict:
  "sorted_wrt P xs \<Longrightarrow> distinct (map f xs) \<Longrightarrow> sorted_wrt (\<lambda>a b. P a b \<and> f a \<noteq> f b) xs"
  by (induction xs) auto

lemma trends_sorted:
  assumes "distinct (map (\<lambda>t. (trend_year t, label_month t)) ts)"
  shows "sorted_wrt trend_before (sort_cmp (\<lambda>a b. 0 < trend_cmp a b) ts)"
proof -
  let ?gt = "\<lambda>a b. 0 < trend_cmp a b"
  have "sorted_wrt (\<lambda>a b. \<not> ?gt a b) (sort_cmp ?gt ts)"
    by (rule sorted_sort_cmp) (auto simp: trend_cmp_def split: if_splits)
  moreover have "distinct (map (\<lambda>t. (trend_year t, label_month t)) (sort_cmp ?gt ts))"
    using assms by (simp add: distinct_map_sort)
  ultimately have "sorted_wrt (\<lambda>a b. \<not> ?gt a b \<and>
       (trend_year a, label_month a) \<noteq> (trend_year b, label_month b)) (sort_cmp ?gt ts)"
    by (rule sorted_wrt_distinct_strict)
  then show ?thesis
    by (rule sorted_wrt_mono_rel [rotated]) (auto simp: trend_before_def trend_cmp_def split:
        if_splits)
qed

lemma map_option_list_Some:
  "\<forall>e \<in> set xs. \<exists>t. f e = Some t \<Longrightarrow> map_option_list f xs = Some (map (the \<circ> f) xs)"
  by (induction xs) auto

lemma gifts_iff:
  "(i, d) \<in> set (donor_gifts donors) \<longleftrightarrow> (\<exists>dn \<in> set donors. i = donor_id dn \<and> d \<in> set (donations dn))"
  by (auto simp: donor_gifts_def)

lemma month_ord_iff:
  "month_ord d = month_ord d' \<longleftrightarrow> getFullYear d = getFullYear d' \<and> getMonth d = getMonth d'"
  unfolding getFullYear_def getMonth_def by (metis div_mult_mod_eq)

lemma givers_month:
  "givers (donor_gifts donors) (monthKey dt)
   = {donor_id dn | dn. dn \<in> set donors \<and>
        (\<exists>d \<in> set (donations dn). getFullYear (date d) = getFullYear dt
                                 \<and> int (getMonth (date d)) + 1 = int (getMonth dt) + 1)}"
  by (auto simp: givers_def gifts_iff monthKey_eq_iff month_ord_iff)

text \<open>
  C8.  \<open>calculateMonthlyTrends\<close> returns for every donor list (it never raises): the
  entries are in strictly ascending order of year and calendar month number, so no
  two entries share year and month; every month with a gift has its entry; and the
  \<open>donorCount\<close> of an entry is the number of distinct donor identifiers with a gift in
  that month.
\<close>

theorem monthly_trends_sorted:
  "\<exists>ts. calculateMonthlyTrends donors = Some ts \<and>
     sorted_wrt trend_before ts \<and>
     (\<forall>t \<in> set ts. 1 \<le> label_month t \<and> label_month t \<le> 12 \<and>
        donorCount t = card {donor_id dn | dn. dn \<in> set donors \<and>
          (\<exists>d \<in> set (donations dn). getFullYear (date d) = trend_year t
                                   \<and> int (getMonth (date d)) + 1 = label_month t)}) \<and>
     (\<forall>dn \<in> set donors. \<forall>d \<in> set (donations dn).
        \<exists>t \<in> set ts. trend_year t = getFullYear (date d)
                    \<and> label_month t = int (getMonth (date d)) + 1)"
proof -
  let ?md = "monthlyData_of donors"
  let ?ps = "donor_gifts donors"
  let ?key = "\<lambda>t. (trend_year t, label_month t)"
  let ?tr = "the \<circ> to_trend"
  have inv: "bucket_inv ?ps ?md" by (rule monthlyData_inv)
  have entry: "\<exists>dt. fst e = monthKey dt \<and> to_trend e = Some (?tr e) \<and>
                  trend_year (?tr e) = getFullYear dt \<and>
                  label_month (?tr e) = int (getMonth dt) + 1 \<and>
                  donorCount (?tr e) = card (givers ?ps (monthKey dt))"
    if "e \<in> set ?md" for e
  proof -
    obtain k a ids where e: "e = (k, a, ids)" by (cases e)
    note be = bucket_entry [OF inv that [unfolded e]]
    from be have ids: "distinct ids" "set ids = givers ?ps k" by simp_all
    from be obtain d :: Donation where k: "k = monthKey (date d)" by auto
    from to_trend_monthKey [of "date d" a ids] obtain t where
      t: "to_trend (monthKey (date d), a, ids) = Some t" "trend_year t = getFullYear (date d)"
         "label_month t = int (getMonth (date d)) + 1" "donorCount t = length ids"
      by auto
    from ids have "length ids = card (givers ?ps k)"
      by (metis distinct_card)
    with t show ?thesis
      unfolding e k by (intro exI [of _ "date d"]) simp
  qed
  then have "\<forall>e \<in> set ?md. \<exists>t. to_trend e = Some t" by blast
  then have some: "map_option_list to_trend ?md = Some (map ?tr ?md)"
    by (rule map_option_list_Some)
  let ?ts = "sort_cmp (\<lambda>a b. 0 < trend_cmp a b) (map ?tr ?md)"
  have res: "calculateMonthlyTrends donors = Some ?ts"
    by (simp add: calculateMonthlyTrends_def some)
  have inj: "inj_on (?key \<circ> ?tr) (set ?md)"
  proof (rule inj_onI)
    fix e e' assume m: "e \<in> set ?md" "e' \<in> set ?md" and eq: "(?key \<circ> ?tr) e = (?key \<circ> ?tr) e'"
    from entry [OF m(1)] obtain dt where dt: "fst e = monthKey dt"
      "trend_year (?tr e) = getFullYear dt" "label_month (?tr e) = int (getMonth dt) + 1" by auto
    from entry [OF m(2)] obtain dt' where dt': "fst e' = monthKey dt'"
      "trend_year (?tr e') = getFullYear dt'" "label_month (?tr e') = int (getMonth dt') + 1" by auto
    from eq dt dt' have "month_ord dt = month_ord dt'" by (simp add: month_ord_iff)
    with dt dt' have "fst e = fst e'" by (simp add: monthKey_eq_iff)
    moreover from inv have "inj_on fst (set ?md)"
      by (simp add: bucket_inv_def distinct_map)
    ultimately show "e = e'" using m by (auto dest: inj_onD)
  qed
  from inv have "distinct ?md" by (simp add: bucket_inv_def distinct_map)
  with inj have "distinct (map ?key (map ?tr ?md))"
    by (simp add: distinct_map comp_def)
  then have sorted: "sorted_wrt trend_before ?ts" by (rule trends_sorted)
  have counts: "1 \<le> label_month t \<and> label_month t \<le> 12 \<and>
        donorCount t = card {donor_id dn | dn. dn \<in> set donors \<and>
          (\<exists>d \<in> set (donations dn). getFullYear (date d) = trend_year t
                                   \<and> int (getMonth (date d)) + 1 = label_month t)}"
    if "t \<in> set ?ts" for t
  proof -
    from that obtain e where e: "e \<in> set ?md" "t = ?tr e"
      by (auto simp: set_sort_cmp)
    from entry [OF e(1)] obtain dt where dt:
      "trend_year t = getFullYear dt" "label_month t = int (getMonth dt) + 1"
      "donorCount t = card (givers ?ps (monthKey dt))"
      unfolding e(2) by auto
    have "getMonth dt < 12" by (simp add: getMonth_def)
    with dt show ?thesis by (simp add: givers_month)
  qed
  have present: "\<exists>t \<in> set ?ts. trend_year t = getFullYear (date d)
                    \<and> label_month t = int (getMonth (date d)) + 1"
    if "dn \<in> set donors" "d \<in> set (donations dn)" for dn d
  proof -
    from that have "(donor_id dn, d) \<in> set ?ps" by (auto simp: gifts_iff)
    from bucket_present [OF inv this] obtain a ids where
      m: "(monthKey (date d), a, ids) \<in> set ?md" by auto
    from entry [OF m] obtain dt where dt: "monthKey (date d) = monthKey dt"
      "trend_year (?tr (monthKey (date d), a, ids)) = getFullYear dt"
      "label_month (?tr (monthKey (date d), a, ids)) = int (getMonth dt) + 1" by auto
    from dt(1) have "getFullYear (date d) = getFullYear dt \<and> getMonth (date d) = getMonth dt"
      by (simp add: monthKey_eq_iff month_ord_iff)
    with dt m show ?thesis
      by (intro bexI [of _ "?tr (monthKey (date d), a, ids)"]) (auto simp: set_sort_cmp)
  qed
  from res sorted counts present show ?thesis by blast
qed


lemma sample_trends_eval: "calculateMonthlyTrends [john_smith] = Some sample_trends"
proof -
  have md: "monthlyData_of [john_smith]
            = [(''2024-08'', Fin 100, [''donor0'']), (''2024-09'', Fin 50, [''donor0''])]"
    by (simp add: monthlyData_of_def john_smith_def gift_aug_def gift_sep_def bucket_add_def
        monthKey_def getFullYear_def getMonth_def padStart_def showNat.simps digitChar_def
        set_add_def Let_def)
  show ?thesis
    unfolding calculateMonthlyTrends_def md
    by (simp add: to_trend_def parseInt_at_def parseInt_def isDigit_def digitVal_def
        newDate_ym_def format_MMM_yyyy_def getFullYear_def getMonth_def monthAbbr_def
        padStart_def showNat.simps digitChar_def js_of_nat_def sort_cmp_def trend_cmp_def
        label_month_def getMonthNumber_def sample_trends_def Let_def)
qed

theorem monthly_trends_sorted_witness:
  "calculateMonthlyTrends [john_smith] = Some sample_trends \<and>
   sorted_wrt trend_before sample_trends \<and>
   map label_month sample_trends = [8, 9] \<and>
   map donorCount sample_trends = [1, 1]"
proof -
  from monthly_trends_sorted [of "[john_smith]"] obtain ts where
    "calculateMonthlyTrends [john_smith] = Some ts" "sorted_wrt trend_before ts"
    by blast
  then have "sorted_wrt trend_before sample_trends"
    by (simp add: sample_trends_eval)
  moreover have "map label_month sample_trends = [8, 9]"
    by (simp add: sample_trends_def label_month_def getMonthNumber_def monthAbbr_def)
  ultimately show ?thesis
    by (simp add: sample_trends_eval) (simp add: sample_trends_def)
qed

section \<open>Properties of field mapping and of the record builder\<close>

lemma normalize_name_row: "normalizeRow name_row = [(''name'', ''John Smith''), (''amount'', ''$100.00'')]"
  by (simp add: normalizeRow_def name_row_def obj_set_def normalizeKey_def stripNonWord_def
      toLowerCase_def toLowerChar_def upperChars_def lowerChars_def isSpace_def isWordChar_def)

lemma normalize_full_name_row:
  "normalizeRow full_name_row = [(''full_name'', ''John Smith''), (''amount'', ''$100.00'')]"
  by (simp add: normalizeRow_def full_name_row_def obj_set_def normalizeKey_def stripNonWord_def
      toLowerCase_def toLowerChar_def upperChars_def lowerChars_def isSpace_def isWordChar_def)

lemma normalize_first_and_full_row:
  "normalizeRow first_and_full_row = [(''first'', ''John''), (''full_name'', ''John Smith'')]"
  by (simp add: normalizeRow_def first_and_full_row_def obj_set_def normalizeKey_def
      stripNonWord_def
      toLowerCase_def toLowerChar_def upperChars_def lowerChars_def isSpace_def isWordChar_def)

lemma map_name_row:
  "mapFields name_row = \<lparr> m_firstName = Some ''John Smith'', m_lastName = Some ''John Smith'',
     m_amount = Some ''$100.00'', m_date = None, m_month = None, m_email = None, m_phone = None,
     m_name = None \<rparr>"
  by code_simp

lemma map_full_name_row:
  "mapFields full_name_row = \<lparr> m_firstName = Some ''John Smith'', m_lastName = None,
     m_amount = Some ''$100.00'', m_date = None, m_month = None, m_email = None, m_phone = None,
     m_name = None \<rparr>"
  by code_simp

lemma map_first_and_full_row:
  "mapFields first_and_full_row = \<lparr> m_firstName = Some ''John'', m_lastName = None,
     m_amount = None, m_date = None, m_month = None, m_email = None, m_phone = None,
     m_name = None \<rparr>"
  by code_simp



lemma normalize_blank_first_row:
  "normalizeRow blank_first_row = [(''first'', []), (''full_name'', ''John Smith''), (''amount'', ''$5'')]"
  by (simp add: normalizeRow_def blank_first_row_def obj_set_def normalizeKey_def
      stripNonWord_def
      toLowerCase_def toLowerChar_def upperChars_def lowerChars_def isSpace_def isWordChar_def)

lemma normalize_blank_name_row:
  "normalizeRow blank_name_row = [(''first'', []), (''full_name'', '' ''), (''amount'', ''$5'')]"
  by (simp add: normalizeRow_def blank_name_row_def obj_set_def normalizeKey_def
      stripNonWord_def
      toLowerCase_def toLowerChar_def upperChars_def lowerChars_def isSpace_def isWordChar_def)

lemma map_blank_first_row:
  "mapFields blank_first_row = \<lparr> m_firstName = Some ''John Smith'', m_lastName = None,
     m_amount = Some ''$5'', m_date = None, m_month = None, m_email = None, m_phone = None,
     m_name = None \<rparr>"
  by code_simp

lemma map_blank_name_row:
  "mapFields blank_name_row = \<lparr> m_firstName = Some [], m_lastName = None,
     m_amount = Some ''$5'', m_date = None, m_month = None, m_email = None, m_phone = None,
     m_name = None \<rparr>"
  by code_simp

lemma names_of_rows:
  "map_field firstName_patterns (normalizeRow blank_first_row) = Some []"
  "first_name_of (normalizeRow blank_first_row) = Some ''John Smith''"
  "last_name_of (normalizeRow blank_first_row) = None"
  "first_name_of (normalizeRow full_name_row) = Some ''John Smith''"
  "last_name_of (normalizeRow full_name_row) = None"
  "first_name_of (normalizeRow name_row) = Some ''John Smith''"
  "last_name_of (normalizeRow name_row) = Some ''John Smith''"
  by code_simp+

lemma truthy_or_empty: "truthy v \<longleftrightarrow> or_empty v \<noteq> []"
  by (cases v) (simp_all add: truthy_def or_empty_def)

text \<open>
  A row that passes the first check of the record builder is never split, and its
  donation carries the trimmed mapped names.
\<close>

lemma build_row_Some:
  assumes "truthy (m_firstName (mapFields r)) \<or> truthy (m_lastName (mapFields r))"
    and "truthy (m_amount (mapFields r))"
  shows "build_row env n r =
     (Some \<lparr> donation_id = generateId env n,
             firstName = trim (or_empty (m_firstName (mapFields r))),
             lastName = trim (or_empty (m_lastName (mapFields r))),
             amount = parseAmount (or_empty (m_amount (mapFields r))),
             date = parseDate env (m_date (mapFields r)) (m_month (mapFields r)),
             month = extractMonth env (m_date (mapFields r)) (m_month (mapFields r)),
             year = extractYear env (m_date (mapFields r)),
             email = (if truthy (m_email (mapFields r))
                      then Some (trim (or_empty (m_email (mapFields r)))) else None),
             phone = (if truthy (m_phone (mapFields r))
                      then Some (trim (or_empty (m_phone (mapFields r)))) else None),
             donorId = [] \<rparr>, True)"
  using assms unfolding build_row_def Let_def truthy_or_empty by auto

lemma build_row_None:
  assumes "\<not> ((truthy (m_firstName (mapFields r)) \<or> truthy (m_lastName (mapFields r)))
             \<and> truthy (m_amount (mapFields r)))"
  shows "build_row env n r = (None, False)"
  using assms unfolding build_row_def Let_def by auto

lemma parseDate_no_info: "no_date_info env m \<Longrightarrow> parseDate env (m_date m) (m_month m) = now env"
  by (simp add: no_date_info_def parseDate_def)

text \<open>
  C2 says that a row without usable date or month information is rejected and yields
  no donation.  \<open>DataParser.parseDate\<close> ends with a fall-back to the current time, so
  the \<open>donation.date\<close> test of the filter never fails: such a row yields a donation,
  dated with the current time, exactly when the checks on its names and its amount
  pass, whatever rows follow it and whatever the state of the identifier supply.
\<close>

theorem undated_row_dated_now:
  assumes "no_date_info env (mapFields r)"
  shows "(name_amount_ok r \<longrightarrow>
            (\<exists>d. fst (processRawData_from env n (r # rs))
                    = d # fst (processRawData_from env (Suc n) rs)
                  \<and> date d = now env \<and> donation_id d = generateId env n))
         \<and> (\<not> name_amount_ok r \<longrightarrow>
            (\<exists>n'. fst (processRawData_from env n (r # rs)) = fst (processRawData_from env n' rs)))"
proof (intro conjI impI)
  assume ok: "name_amount_ok r"
  then have pass: "truthy (m_firstName (mapFields r)) \<or> truthy (m_lastName (mapFields r))"
    "truthy (m_amount (mapFields r))"
    by (simp_all add: name_amount_ok_def)
  note b = build_row_Some [OF pass, of env n]
  from ok have keep: "keep_donation (the (fst (build_row env n r)))"
    unfolding b by (simp add: keep_donation_def name_amount_ok_def)
  show "\<exists>d. fst (processRawData_from env n (r # rs)) = d # fst (processRawData_from env (Suc n) rs)
            \<and> date d = now env \<and> donation_id d = generateId env n"
    using keep parseDate_no_info [OF assms] unfolding b
    by (intro exI [of _ "the (fst (build_row env n r))"])
       (simp add: b split: prod.splits)
next
  assume nok: "\<not> name_amount_ok r"
  show "\<exists>n'. fst (processRawData_from env n (r # rs)) = fst (processRawData_from env n' rs)"
  proof (cases "(truthy (m_firstName (mapFields r)) \<or> truthy (m_lastName (mapFields r)))
             \<and> truthy (m_amount (mapFields r))")
    case True
    then have pass: "truthy (m_firstName (mapFields r)) \<or> truthy (m_lastName (mapFields r))"
      "truthy (m_amount (mapFields r))" by simp_all
    note b = build_row_Some [OF pass, of env n]
    from nok True have "\<not> keep_donation (the (fst (build_row env n r)))"
      unfolding b by (simp add: keep_donation_def name_amount_ok_def)
    then show ?thesis
      by (intro exI [of _ "Suc n"]) (simp add: b split: prod.splits)
  next
    case False
    then show ?thesis
      by (intro exI [of _ n]) (simp add: build_row_None split: prod.splits)
  qed
qed

subsection \<open>The combined name field\<close>

lemma trim_nonempty: "trim v \<noteq> [] \<Longrightarrow> v \<noteq> []"
  by (auto simp: trim_def)

lemma name_fallback_keeps:
  "truthy (fst names) \<Longrightarrow> truthy (fst (foldl name_fallback_step names es))"
proof (induction es arbitrary: names)
  case Nil
  then show ?case by simp
next
  case (Cons e es)
  from Cons.prems have "truthy (fst (name_fallback_step names e))"
    by (simp add: name_fallback_step_def Let_def)
  then show ?case by (simp add: Cons.IH)
qed

lemma name_fallback_finds:
  assumes "\<exists>e \<in> set es. str_includes (fst e) ''name'' \<and> trim (snd e) \<noteq> []"
  shows "truthy (fst (foldl name_fallback_step names es))"
  using assms
proof (induction es arbitrary: names)
  case Nil
  then show ?case by simp
next
  case (Cons e es)
  show ?case
  proof (cases "str_includes (fst e) ''name'' \<and> trim (snd e) \<noteq> []")
    case True
    then have "truthy (fst (name_fallback_step names e))"
      using trim_nonempty [of "snd e"] by (auto simp: name_fallback_step_def Let_def truthy_def)
    then show ?thesis by (simp add: name_fallback_keeps)
  next
    case False
    with Cons.prems have "\<exists>e \<in> set es. str_includes (fst e) ''name'' \<and> trim (snd e) \<noteq> []"
      by auto
    then show ?thesis by (simp add: Cons.IH)
  qed
qed

lemma fullname_none:
  assumes "\<not> (\<exists>e \<in> set es. str_includes (fst e) ''name'' \<and> trim (snd e) \<noteq> [])"
  shows "foldl fullname_step nm es = nm"
  using assms by (induction es arbitrary: nm) (auto simp: fullname_step_def Let_def)

text \<open>The names after the first fall-back loop of \<open>mapFields\<close>.\<close>

lemma mapFields_names:
  "(m_firstName (mapFields r), m_lastName (mapFields r)) =
     (let nr = normalizeRow r;
          fn0 = map_field firstName_patterns nr; ln0 = map_field lastName_patterns nr
      in if \<not> truthy fn0 \<or> \<not> truthy ln0
         then foldl name_fallback_step (fn0, ln0) (entries nr) else (fn0, ln0))"
  by (simp add: mapFields_def Let_def)

lemma mapFields_firstName_truthy:
  assumes "\<exists>e \<in> set (entries (normalizeRow r)). str_includes (fst e) ''name'' \<and> trim (snd e) \<noteq> []"
  shows "truthy (m_firstName (mapFields r))"
proof -
  let ?nr = "normalizeRow r"
  let ?fn0 = "map_field firstName_patterns ?nr"
  let ?ln0 = "map_field lastName_patterns ?nr"
  show ?thesis
  proof (cases "\<not> truthy ?fn0 \<or> \<not> truthy ?ln0")
    case True
    then have "m_firstName (mapFields r) = fst (foldl name_fallback_step (?fn0, ?ln0) (entries ?nr))"
      using mapFields_names [of r] by (simp add: Let_def split: if_splits) (metis fst_conv)
    then show ?thesis using name_fallback_finds [OF assms] by simp
  next
    case False
    then have "m_firstName (mapFields r) = ?fn0"
      using mapFields_names [of r] by (simp add: Let_def)
    with False show ?thesis by simp
  qed
qed

lemma mapFields_name_None: "m_name (mapFields r) = None"
proof -
  let ?nr = "normalizeRow r"
  have nm: "m_name (mapFields r) =
      (if \<not> truthy (m_firstName (mapFields r)) \<and> \<not> truthy (m_lastName (mapFields r))
       then foldl fullname_step None (entries ?nr) else None)"
    by (simp add: mapFields_def Let_def)
  show ?thesis
  proof (cases "\<exists>e \<in> set (entries ?nr). str_includes (fst e) ''name'' \<and> trim (snd e) \<noteq> []")
    case True
    then have "truthy (m_firstName (mapFields r))" by (rule mapFields_firstName_truthy)
    with nm show ?thesis by simp
  next
    case False
    then have "foldl fullname_step None (entries ?nr) = None" by (rule fullname_none)
    with nm show ?thesis by simp
  qed
qed


lemma name_fallback_fixed:
  "truthy (fst names) \<Longrightarrow> fst (foldl name_fallback_step names es) = fst names"
proof (induction es arbitrary: names)
  case Nil
  then show ?case by simp
next
  case (Cons e es)
  from Cons.prems have "fst (name_fallback_step names e) = fst names"
    by (simp add: name_fallback_step_def Let_def)
  with Cons.prems show ?case by (simp add: Cons.IH)
qed

lemma mapFields_firstName_exact:
  assumes "map_field firstName_patterns (normalizeRow r) = Some v" and "v \<noteq> []"
  shows "m_firstName (mapFields r) = Some v"
proof -
  from assms have t: "truthy (map_field firstName_patterns (normalizeRow r))"
    by (simp add: truthy_def)
  have "fst (m_firstName (mapFields r), m_lastName (mapFields r))
        = map_field firstName_patterns (normalizeRow r)"
    unfolding mapFields_names Let_def using t by (simp add: name_fallback_fixed)
  with assms show ?thesis by simp
qed

subsection \<open>Every mapped name is a cell of the row\<close>

lemma set_entries: "set (entries obj) = set obj"
  by (auto simp: entries_def set_sort_cmp)

lemma normalizeRow_values: "snd ` set (normalizeRow r) \<subseteq> snd ` set r"
proof -
  have upd: "set (AList.update k v obj) \<subseteq> insert (k, v) (set obj)" for k v and obj :: row
    by (induction obj) auto
  have step: "snd ` set (obj_set k v obj) \<subseteq> insert v (snd ` set obj)" for k v obj
    using upd [of k v obj] by (auto simp: obj_set_def)
  have "snd ` set (foldl (\<lambda>obj (key, v). obj_set (normalizeKey key) v obj) obj0 r)
        \<subseteq> snd ` set obj0 \<union> snd ` set r" for obj0
  proof (induction r arbitrary: obj0)
    case Nil
    then show ?case by simp
  next
    case (Cons e r)
    obtain key v where e: "e = (key, v)" by (cases e)
    from Cons [of "obj_set (normalizeKey key) v obj0"] step [of "normalizeKey key" v obj0]
    show ?case unfolding e by auto
  qed
  from this [of "[]"] show ?thesis by (simp add: normalizeRow_def)
qed

lemma exact_match_value: "exact_match ps nr = Some v \<Longrightarrow> v \<in> snd ` set nr"
proof (induction ps)
  case Nil
  then show ?case by simp
next
  case (Cons p ps)
  show ?case
  proof (cases "map_of nr (stripNonWord p) \<noteq> None \<or> map_of nr p \<noteq> None")
    case True
    with Cons.prems have "map_of nr (stripNonWord p) = Some v \<or> map_of nr p = Some v"
      by (auto simp: js_or_def Let_def split: if_splits)
    then show ?thesis by (auto dest!: map_of_SomeD intro: rev_image_eqI)
  next
    case False
    with Cons show ?thesis by (simp add: Let_def)
  qed
qed

lemma map_field_value: "map_field ps nr = Some v \<Longrightarrow> v \<in> snd ` set nr"
proof (cases "exact_match ps nr")
  case None
  assume "map_field ps nr = Some v"
  with None obtain e es where "filter (\<lambda>e. partial_hit ps (fst e)) (entries nr) = e # es" "v = snd e"
    by (auto simp: map_field_def partial_match_def split: list.splits)
  then have "e \<in> set (entries nr)" by (metis filter_is_subset list.set_intros(1) subsetD)
  with \<open>v = snd e\<close> show ?thesis by (auto simp: set_entries)
next
  case (Some w)
  assume "map_field ps nr = Some v"
  with Some have "exact_match ps nr = Some v" by (simp add: map_field_def)
  then show ?thesis by (rule exact_match_value)
qed

lemma name_fallback_value:
  assumes "fst (foldl name_fallback_step names es) = Some v"
  shows "fst names = Some v \<or> v \<in> snd ` set es"
  using assms
proof (induction es arbitrary: names)
  case Nil
  then show ?case by simp
next
  case (Cons e es)
  from Cons.IH [of "name_fallback_step names e"] Cons.prems
  have "fst (name_fallback_step names e) = Some v \<or> v \<in> snd ` set es" by simp
  then show ?case
    by (auto simp: name_fallback_step_def Let_def split: if_splits)
qed

lemma mapFields_firstName_value:
  assumes "m_firstName (mapFields r) = Some v"
  shows "v \<in> snd ` set r"
proof -
  let ?nr = "normalizeRow r"
  have "fst (m_firstName (mapFields r), m_lastName (mapFields r)) = Some v"
    using assms by simp
  then have "map_field firstName_patterns ?nr = Some v \<or> v \<in> snd ` set (entries ?nr)"
    unfolding mapFields_names Let_def
    by (auto dest!: name_fallback_value split: if_splits)
  then have "v \<in> snd ` set ?nr"
    by (auto dest: map_field_value simp: set_entries)
  with normalizeRow_values show ?thesis by blast
qed

subsection \<open>The two names in closed form\<close>

lemma first_value_Nil: "first_value P [] d = d"
  by (simp add: first_value_def)

lemma first_value_Cons:
  "first_value P (e # es) d = (if P e then Some (snd e) else first_value P es d)"
  by (simp add: first_value_def)

lemma candidate_truthy:
  "name_candidate e \<Longrightarrow> truthy (Some (snd e))"
  "last_candidate e \<Longrightarrow> truthy (Some (snd e))"
  using trim_nonempty [of "snd e"]
  by (simp_all add: truthy_def name_candidate_def last_candidate_def)

lemma name_fallback_step_cases:
  "name_fallback_step (f0, l0) e =
     (if name_candidate e \<and> \<not> truthy f0 then (Some (snd e), l0)
      else if last_candidate e \<and> \<not> truthy l0 then (f0, Some (snd e))
      else (f0, l0))"
  by (auto simp: name_fallback_step_def Let_def name_candidate_def last_candidate_def)

lemma name_fallback_fold:
  "foldl name_fallback_step (f0, l0) es =
     (if truthy f0 then f0 else first_value name_candidate es f0,
      if truthy l0 then l0
      else first_value last_candidate (if truthy f0 then es else remove_first name_candidate es) l0)"
proof (induction es arbitrary: f0 l0)
  case Nil
  then show ?case by (simp add: first_value_Nil)
next
  case (Cons e es)
  show ?case
    unfolding foldl_Cons name_fallback_step_cases
    by (simp add: Cons.IH first_value_Cons candidate_truthy)
qed

lemma first_value_first:
  assumes "e \<in> set es" and "P e" and "\<forall>e' \<in> set (takeWhile (\<lambda>e'. e' \<noteq> e) es). \<not> P e'"
  shows "first_value P es d = Some (snd e)"
  using assms
proof (induction es)
  case Nil
  then show ?case by simp
next
  case (Cons x es)
  then show ?case by (cases "x = e") (auto simp: first_value_Cons)
qed

lemma mapFields_first_last:
  "m_firstName (mapFields r) = first_name_of (normalizeRow r) \<and>
   m_lastName (mapFields r) = last_name_of (normalizeRow r)"
proof -
  have "(m_firstName (mapFields r), m_lastName (mapFields r))
        = (first_name_of (normalizeRow r), last_name_of (normalizeRow r))"
    unfolding mapFields_names Let_def name_fallback_fold first_name_of_def last_name_of_def
    by simp
  then show ?thesis by simp
qed

text \<open>
  C10, amended.  \<open>mapFields\<close> never produces the combined \<open>name\<close> field, for any row,
  so a donation built from a row is never split: its names are the trimmed mapped
  \<open>firstName\<close> and \<open>lastName\<close>.  The mapped \<open>firstName\<close> is the value that the first-name
  patterns match, exactly or by containment, when that value is not empty, and
  otherwise the cell of the first entry of the normalized row whose key contains
  \<open>name\<close> or \<open>first\<close> and whose cell is not blank.  When a key of the normalized row
  contains \<open>name\<close> and its cell is not blank, such an entry exists and \<open>firstName\<close> is
  a non-empty cell of the row: the cell of that column unless an earlier match gives
  the value, that is, whenever the first-name patterns match no non-empty value and
  no earlier entry has a key with \<open>name\<close> or \<open>first\<close> and a cell that is not blank.
  The mapped \<open>lastName\<close> is the value that the last-name patterns match
  when it is not empty, which may be the cell of the name column itself; otherwise
  it is the cell of the first entry, other than the one taken for \<open>firstName\<close> by the
  fall-back, whose key contains \<open>last\<close> or \<open>surname\<close> and whose cell is not blank.
\<close>

theorem name_column_mapping:
  "m_name (mapFields r) = None
   \<and> m_firstName (mapFields r) = first_name_of (normalizeRow r)
   \<and> m_lastName (mapFields r) = last_name_of (normalizeRow r)
   \<and> ((\<exists>e \<in> set (normalizeRow r). str_includes (fst e) ''name'' \<and> trim (snd e) \<noteq> []) \<longrightarrow>
        truthy (m_firstName (mapFields r))
        \<and> (\<exists>c \<in> set r. m_firstName (mapFields r) = Some (snd c)))
   \<and> (\<forall>e \<in> set (entries (normalizeRow r)).
        str_includes (fst e) ''name'' \<and> trim (snd e) \<noteq> []
        \<and> \<not> truthy (map_field firstName_patterns (normalizeRow r))
        \<and> (\<forall>e' \<in> set (takeWhile (\<lambda>e'. e' \<noteq> e) (entries (normalizeRow r))). \<not> name_candidate e')
        \<longrightarrow> m_firstName (mapFields r) = Some (snd e))
   \<and> (\<forall>v. map_field firstName_patterns (normalizeRow r) = Some v \<and> v \<noteq> [] \<longrightarrow>
        m_firstName (mapFields r) = Some v)
   \<and> (\<forall>d. fst (build_row env n r) = Some d \<longrightarrow>
        firstName d = trim (or_empty (m_firstName (mapFields r)))
        \<and> lastName d = trim (or_empty (m_lastName (mapFields r))))"
proof (intro conjI impI allI ballI)
  show "m_name (mapFields r) = None" by (rule mapFields_name_None)
next
  show "m_firstName (mapFields r) = first_name_of (normalizeRow r)"
    by (simp add: mapFields_first_last)
next
  fix e
  assume e: "e \<in> set (entries (normalizeRow r))"
    and h: "str_includes (fst e) ''name'' \<and> trim (snd e) \<noteq> []
        \<and> \<not> truthy (map_field firstName_patterns (normalizeRow r))
        \<and> (\<forall>e' \<in> set (takeWhile (\<lambda>e'. e' \<noteq> e) (entries (normalizeRow r))). \<not> name_candidate e')"
  from h have cand: "name_candidate e" by (simp add: name_candidate_def)
  from h have "\<forall>e' \<in> set (takeWhile (\<lambda>e'. e' \<noteq> e) (entries (normalizeRow r))). \<not> name_candidate e'"
    by simp
  with e cand have "first_value name_candidate (entries (normalizeRow r))
                 (map_field firstName_patterns (normalizeRow r)) = Some (snd e)"
    by (rule first_value_first [where P = name_candidate])
  with h show "m_firstName (mapFields r) = Some (snd e)"
    by (simp add: mapFields_first_last first_name_of_def Let_def)
next
  show "m_lastName (mapFields r) = last_name_of (normalizeRow r)"
    by (simp add: mapFields_first_last)
next
  assume "\<exists>e \<in> set (normalizeRow r). str_includes (fst e) ''name'' \<and> trim (snd e) \<noteq> []"
  then show "truthy (m_firstName (mapFields r))"
    by (intro mapFields_firstName_truthy) (simp add: set_entries)
next
  assume "\<exists>e \<in> set (normalizeRow r). str_includes (fst e) ''name'' \<and> trim (snd e) \<noteq> []"
  then have "truthy (m_firstName (mapFields r))"
    by (intro mapFields_firstName_truthy) (simp add: set_entries)
  then obtain v where v: "m_firstName (mapFields r) = Some v"
    by (cases "m_firstName (mapFields r)") (auto simp: truthy_def)
  from mapFields_firstName_value [OF v] v
  show "\<exists>c \<in> set r. m_firstName (mapFields r) = Some (snd c)" by auto
next
  fix v assume "map_field firstName_patterns (normalizeRow r) = Some v \<and> v \<noteq> []"
  then show "m_firstName (mapFields r) = Some v"
    by (intro mapFields_firstName_exact) simp_all
next
  fix d assume some: "fst (build_row env n r) = Some d"
  have pass: "(truthy (m_firstName (mapFields r)) \<or> truthy (m_lastName (mapFields r)))
              \<and> truthy (m_amount (mapFields r))"
  proof (rule ccontr)
    assume "\<not> ?thesis"
    then have "build_row env n r = (None, False)" by (rule build_row_None)
    with some show False by simp
  qed
  from pass have "build_row env n r = (Some \<lparr> donation_id = generateId env n,
             firstName = trim (or_empty (m_firstName (mapFields r))),
             lastName = trim (or_empty (m_lastName (mapFields r))),
             amount = parseAmount (or_empty (m_amount (mapFields r))),
             date = parseDate env (m_date (mapFields r)) (m_month (mapFields r)),
             month = extractMonth env (m_date (mapFields r)) (m_month (mapFields r)),
             year = extractYear env (m_date (mapFields r)),
             email = (if truthy (m_email (mapFields r))
                      then Some (trim (or_empty (m_email (mapFields r)))) else None),
             phone = (if truthy (m_phone (mapFields r))
                      then Some (trim (or_empty (m_phone (mapFields r)))) else None),
             donorId = [] \<rparr>, True)"
    by (intro build_row_Some) simp_all
  with some show "firstName d = trim (or_empty (m_firstName (mapFields r)))"
    and "lastName d = trim (or_empty (m_lastName (mapFields r)))"
    by auto
qed

lemma build_full_name_row: "build_row sample_env 0 full_name_row = (Some undated_gift, True)"
proof -
  have pass: "truthy (m_firstName (mapFields full_name_row)) \<or> truthy (m_lastName (mapFields full_name_row))"
    "truthy (m_amount (mapFields full_name_row))"
    by (simp_all add: map_full_name_row truthy_def)
  have amt: "parseAmount ''$100.00'' = Fin 100"
    by (simp add: parseAmount_def parseFloat_clean_def isDigit_def trim_def isSpace_def
        digitsVal_def digitVal_def Let_def)
  have dt: "parseDate sample_env None None = Date (2026 * 12 + 10) 2"
    by (simp add: parseDate_def date_branch_def month_branch_def sample_env_def)
  have mo: "format_MMMM_yyyy (Date (2026 * 12 + 10) 2) = ''November 2026''"
    by (simp add: format_MMMM_yyyy_def getMonth_def getFullYear_def monthFull_def padStart_def
        showNat.simps digitChar_def)
  have gid: "generateId sample_env 0 = ''donor0''"
    by (simp add: sample_env_def sample_gen_def showNat.simps digitChar_def)
  show ?thesis
    unfolding build_row_Some [OF pass] map_full_name_row
    by (simp add: undated_gift_def amt extractMonth_def extractYear_def dt mo [simplified]
        getFullYear_def or_empty_def truthy_def trim_def isSpace_def gid)
qed

lemma full_name_row_undated: "no_date_info sample_env (mapFields full_name_row)"
  by (simp add: no_date_info_def map_full_name_row date_branch_def month_branch_def)

lemma full_name_row_ok: "name_amount_ok full_name_row"
proof -
  have amt: "parseAmount ''$100.00'' = Fin 100"
    by (simp add: parseAmount_def parseFloat_clean_def isDigit_def trim_def isSpace_def
        digitsVal_def digitVal_def Let_def)
  show ?thesis
    by (simp add: name_amount_ok_def map_full_name_row truthy_def or_empty_def amt js_gt_def
        trim_def isSpace_def)
qed

theorem undated_row_dated_now_witness:
  "no_date_info sample_env (mapFields full_name_row) \<and>
   name_amount_ok full_name_row \<and>
   map date (fst (processRawData_from sample_env 0 [full_name_row])) = [now sample_env] \<and>
   processRawData sample_env [full_name_row] = [undated_gift] \<and>
   date undated_gift = now sample_env"
proof -
  from undated_row_dated_now [OF full_name_row_undated, of 0 "[]"] full_name_row_ok
  obtain d where "fst (processRawData_from sample_env 0 [full_name_row])
                    = d # fst (processRawData_from sample_env (Suc 0) [])"
    and "date d = now sample_env"
    by blast
  then have dated: "map date (fst (processRawData_from sample_env 0 [full_name_row])) = [now sample_env]"
    by simp
  have "keep_donation undated_gift"
    by (simp add: keep_donation_def undated_gift_def js_gt_def)
  then have kept: "processRawData sample_env [full_name_row] = [undated_gift]"
    by (simp add: processRawData_def build_full_name_row)
  have "date undated_gift = now sample_env"
    by (simp add: undated_gift_def sample_env_def)
  with dated kept full_name_row_undated full_name_row_ok show ?thesis by simp
qed

text \<open>
  C10, as the claim reads it.  In the row with the columns \<open>First\<close> and \<open>Full Name\<close>
  the second header contains \<open>name\<close> and its cell is not empty, yet \<open>firstName\<close> is
  the cell of \<open>First\<close>.  In the row whose name column is headed \<open>Name\<close> no other column
  is like a last name, yet \<open>lastName\<close> is not empty: the key \<open>name\<close> is contained in
  the pattern \<open>last_name\<close>, so the same cell is mapped to both names.  In the row
  with an empty \<open>First\<close> and a \<open>Full Name\<close> that holds one space, the cell of the name
  column is not empty, yet \<open>firstName\<close> is the empty cell of \<open>First\<close> and the row
  yields no donation.
\<close>

theorem name_column_counterexample:
  "(''full_name'', ''John Smith'') \<in> set (normalizeRow first_and_full_row) \<and>
   str_includes ''full_name'' ''name'' \<and>
   m_firstName (mapFields first_and_full_row) = Some ''John'' \<and>
   normalizeRow name_row = [(''name'', ''John Smith''), (''amount'', ''$100.00'')] \<and>
   m_firstName (mapFields name_row) = Some ''John Smith'' \<and>
   m_lastName (mapFields name_row) = Some ''John Smith'' \<and>
   (''full_name'', '' '') \<in> set (normalizeRow blank_name_row) \<and>
   m_firstName (mapFields blank_name_row) = Some [] \<and>
   build_row sample_env 0 blank_name_row = (None, False)"
proof -
  have "build_row sample_env 0 blank_name_row = (None, False)"
    by (intro build_row_None) (simp add: map_blank_name_row truthy_def)
  then show ?thesis
    by (simp add: normalize_first_and_full_row normalize_name_row map_first_and_full_row
        map_name_row normalize_blank_name_row map_blank_name_row)
qed

theorem name_column_mapping_witness:
  "(''full_name'', ''John Smith'') \<in> set (normalizeRow full_name_row) \<and>
   str_includes ''full_name'' ''name'' \<and> trim ''John Smith'' \<noteq> [] \<and>
   m_name (mapFields full_name_row) = None \<and>
   truthy (m_firstName (mapFields full_name_row)) \<and>
   m_firstName (mapFields full_name_row) = Some ''John Smith'' \<and>
   m_lastName (mapFields full_name_row) = None \<and>
   fst (build_row sample_env 0 full_name_row) = Some undated_gift \<and>
   firstName undated_gift = ''John Smith'' \<and> lastName undated_gift = [] \<and>
   map_field firstName_patterns (normalizeRow blank_first_row) = Some [] \<and>
   m_firstName (mapFields blank_first_row) = Some ''John Smith'' \<and>
   m_lastName (mapFields blank_first_row) = None \<and>
   m_firstName (mapFields name_row) = Some ''John Smith'' \<and>
   m_lastName (mapFields name_row) = Some ''John Smith''"
proof -
  have col: "(''full_name'', ''John Smith'') \<in> set (normalizeRow full_name_row) \<and>
             str_includes ''full_name'' ''name'' \<and> trim ''John Smith'' \<noteq> []"
    by (simp add: normalize_full_name_row trim_def isSpace_def)
  then have hyp: "\<exists>e \<in> set (normalizeRow full_name_row). str_includes (fst e) ''name'' \<and> trim (snd e) \<noteq> []"
    by (intro bexI [of _ "(''full_name'', ''John Smith'')"]) simp_all
  have built: "fst (build_row sample_env 0 full_name_row) = Some undated_gift"
    by (simp add: build_full_name_row)
  from name_column_mapping [of full_name_row sample_env 0] hyp built
  have full: "m_name (mapFields full_name_row) = None \<and> truthy (m_firstName (mapFields full_name_row))
        \<and> m_firstName (mapFields full_name_row) = first_name_of (normalizeRow full_name_row)
        \<and> m_lastName (mapFields full_name_row) = last_name_of (normalizeRow full_name_row)
        \<and> firstName undated_gift = trim (or_empty (m_firstName (mapFields full_name_row)))
        \<and> lastName undated_gift = trim (or_empty (m_lastName (mapFields full_name_row)))"
    by blast
  from name_column_mapping [of blank_first_row sample_env 0]
  have blank: "m_firstName (mapFields blank_first_row) = first_name_of (normalizeRow blank_first_row)
        \<and> m_lastName (mapFields blank_first_row) = last_name_of (normalizeRow blank_first_row)"
    by blast
  have ent: "entries (normalizeRow blank_first_row)
             = [(''first'', []), (''full_name'', ''John Smith''), (''amount'', ''$5'')]"
    by (simp add: normalize_blank_first_row entries_def isArrayIndex_def isDigit_def sort_cmp_def)
  have first_cand: "(''full_name'', ''John Smith'') \<in> set (entries (normalizeRow blank_first_row)) \<and>
      str_includes (fst (''full_name'', ''John Smith'')) ''name'' \<and>
      trim (snd (''full_name'', ''John Smith'')) \<noteq> [] \<and>
      \<not> truthy (map_field firstName_patterns (normalizeRow blank_first_row)) \<and>
      (\<forall>e' \<in> set (takeWhile (\<lambda>e'. e' \<noteq> (''full_name'', ''John Smith''))
                          (entries (normalizeRow blank_first_row))). \<not> name_candidate e')"
    unfolding ent names_of_rows(1)
    by (simp add: trim_def isSpace_def truthy_def name_candidate_def)
  from name_column_mapping [of blank_first_row sample_env 0] first_cand
  have by_column: "m_firstName (mapFields blank_first_row) = Some (snd (''full_name'', ''John Smith''))"
    by blast
  from name_column_mapping [of name_row sample_env 0]
  have name: "m_firstName (mapFields name_row) = first_name_of (normalizeRow name_row)
        \<and> m_lastName (mapFields name_row) = last_name_of (normalizeRow name_row)"
    by blast
  have gift: "firstName undated_gift = ''John Smith'' \<and> lastName undated_gift = []"
    by (simp add: undated_gift_def)
  note full [unfolded names_of_rows] blank [unfolded names_of_rows] name [unfolded names_of_rows]
  then have "m_name (mapFields full_name_row) = None \<and>
        truthy (m_firstName (mapFields full_name_row)) \<and>
        m_firstName (mapFields full_name_row) = Some ''John Smith'' \<and>
        m_lastName (mapFields full_name_row) = None \<and>
        m_firstName (mapFields blank_first_row) = Some ''John Smith'' \<and>
        m_lastName (mapFields blank_first_row) = None \<and>
        m_firstName (mapFields name_row) = Some ''John Smith'' \<and>
        m_lastName (mapFields name_row) = Some ''John Smith''"
    by blast
  with col built gift names_of_rows(1) by_column show ?thesis by blast
qed

end
